theory Spec2Isabelle
  imports Main
begin

section \<open>echo-views: the view registry, the compiler and the renderer\<close>

text \<open>
  The package registers HTML views (a page file, optionally a layout and includes),
  compiles each into one \<open>html/template\<close> artifact and renders them by name. The
  template engine, the file collection, the response context and the logger are
  collaborators of the package: the engine and the file collection are parameters of
  the model (record \<open>engine\<close>), the response context is a record of what its two
  operations return (record \<open>Context\<close>), and every call on the logger or on the
  response context is appended to a trace kept in the renderer state.
\<close>

subsection \<open>Errors, results and the trace\<close>

text \<open>
  The errors of the package are the \<open>fmt.Errorf\<close> values of the source, one
  constructor per format string; \<open>%w\<close> wraps the error given as argument.
  \<open>ErrBadPattern\<close> is \<open>path.ErrBadPattern\<close>, the one error \<open>fs.Glob\<close> returns;
  \<open>External\<close> is any other error raised by a collaborator.
\<close>

datatype error =
    ErrBadPattern
  | External string
  | NotFound string
  | NoMatch string
  | ListFailed error
  | ReadNamesFailed error
  | ParseFailed string error

text \<open>A call either returns or panics (a nil \<open>*template.Template\<close> is dereferenced).\<close>

datatype 'a outcome = Panics | Returns 'a

text \<open>
  The calls made on the logger and on the response context, in order. The structured
  fields of a log entry are left out (one of them is a wall-clock duration).
\<close>

datatype event =
    LogDebugCtx string
  | LogErrorCtx string error
  | LogDebug string
  | NoContentSent int
  | HTMLBlobSent int string

subsection \<open>The data model\<close>

text \<open>
  \<open>type View struct\<close>; \<open>template\<close> is a pointer, \<open>None\<close> is nil. The field
  \<open>includes\<close> is written \<open>includes'\<close>.
\<close>

record 'tpl View =
  layout :: string
  name :: string
  includes' :: string
  template :: "'tpl option"

text \<open>
  \<open>type ViewRenderer struct\<close>. The registry \<open>templates\<close> is a
  \<open>map[string]*View\<close>: it holds addresses, and \<open>store\<close> is the memory the
  addresses point into (an address is an index of \<open>store\<close>, and \<open>&View{...}\<close>
  appends). \<open>trace\<close> stands for the logger and the response writer.
\<close>

record ('fs, 'fn, 'tpl) ViewRenderer =
  fsys :: 'fs
  autoReload :: bool
  templates :: "string \<rightharpoonup> nat"
  templateFuncs :: 'fn
  store :: "'tpl View list"
  trace :: "event list"

text \<open>
  The collaborators from the standard library: \<open>fs.Glob(fsys, pattern)\<close>,
  \<open>template.New(name).Funcs(funcs).ParseFS(fsys, patterns...)\<close> (which returns a nil
  template together with any error) and \<open>(*Template).ExecuteTemplate(w, name, data)\<close>
  (the bytes it writes to \<open>w\<close> and the error it returns).
\<close>

record ('fs, 'fn, 'tpl, 'd) engine =
  Glob :: "'fs \<Rightarrow> string \<Rightarrow> error + string list"
  ParseFS :: "string \<Rightarrow> 'fn \<Rightarrow> 'fs \<Rightarrow> string list \<Rightarrow> error + 'tpl"
  ExecuteTemplate :: "'tpl \<Rightarrow> string \<Rightarrow> 'd \<Rightarrow> string \<times> error option"

text \<open>\<open>type Context interface\<close>: what \<open>NoContent\<close> and \<open>HTMLBlob\<close> return.\<close>

record Context =
  NoContent :: "int \<Rightarrow> error option"
  HTMLBlob :: "int \<Rightarrow> string \<Rightarrow> error option"

subsection \<open>\<open>path.Base\<close>\<close>

text \<open>
  \<open>path.Base\<close> of the Go standard library: the empty path gives \<open>.\<close>; trailing slashes
  are removed; what follows the last slash is kept; a path of slashes only gives \<open>/\<close>.
\<close>

definition Base :: "string \<Rightarrow> string" where
  "Base p =
     (if p = [] then ''.''
      else
        let p1 = rev (dropWhile (\<lambda>c. c = CHR ''/'') (rev p));
            p2 = rev (takeWhile (\<lambda>c. c \<noteq> CHR ''/'') (rev p1))
        in if p2 = [] then ''/'' else p2)"

subsection \<open>Construction\<close>

text \<open>
  \<open>New(WithFS(fs), WithAutoReload(ar), WithFuncs(fn))\<close>: an empty registry. The model
  covers renderers that were given a file collection.
\<close>

definition New :: "'fs \<Rightarrow> bool \<Rightarrow> 'fn \<Rightarrow> ('fs, 'fn, 'tpl) ViewRenderer" where
  "New fs ar fn =
     \<lparr>fsys = fs, autoReload = ar, templates = Map.empty, templateFuncs = fn,
      store = [], trace = []\<rparr>"

text \<open>
  The options are exported functions on a renderer (\<open>type Option func(r *ViewRenderer)\<close>),
  so a program can also apply one to a renderer that is in use, as in
  \<open>WithAutoReload(false)(r)\<close>. \<open>WithLogger\<close> replaces the logger, which the model
  represents by the trace.
\<close>

definition WithFS ::
  "'fs \<Rightarrow> ('fs, 'fn, 'tpl) ViewRenderer \<Rightarrow> ('fs, 'fn, 'tpl) ViewRenderer" where
  "WithFS fs r = r\<lparr>fsys := fs\<rparr>"

definition WithAutoReload ::
  "bool \<Rightarrow> ('fs, 'fn, 'tpl) ViewRenderer \<Rightarrow> ('fs, 'fn, 'tpl) ViewRenderer" where
  "WithAutoReload enabled r = r\<lparr>autoReload := enabled\<rparr>"

definition WithFuncs ::
  "'fn \<Rightarrow> ('fs, 'fn, 'tpl) ViewRenderer \<Rightarrow> ('fs, 'fn, 'tpl) ViewRenderer" where
  "WithFuncs funcs r = r\<lparr>templateFuncs := funcs\<rparr>"

definition emit :: "event \<Rightarrow> ('fs, 'fn, 'tpl) ViewRenderer \<Rightarrow> ('fs, 'fn, 'tpl) ViewRenderer" where
  "emit e t = t\<lparr>trace := trace t @ [e]\<rparr>"

text \<open>\<open>&View{...}\<close>: a fresh address holding the view.\<close>

definition alloc ::
  "'tpl View \<Rightarrow> ('fs, 'fn, 'tpl) ViewRenderer \<Rightarrow> nat \<times> ('fs, 'fn, 'tpl) ViewRenderer" where
  "alloc v t = (length (store t), t\<lparr>store := store t @ [v]\<rparr>)"

subsection \<open>The compiler\<close>

text \<open>
  \<open>readFileNames\<close>: the loop over the patterns, with \<open>filenames\<close> as accumulator.
\<close>

fun readFileNames_loop ::
  "('fs, 'fn, 'tpl, 'd) engine \<Rightarrow> 'fs \<Rightarrow> string list \<Rightarrow> string list \<Rightarrow> error + string list" where
  "readFileNames_loop E fs filenames [] = Inr filenames"
| "readFileNames_loop E fs filenames (pattern # rest) =
     (case Glob E fs pattern of
        Inl err \<Rightarrow> Inl (ListFailed err)
      | Inr list \<Rightarrow>
          if length list = 0 then Inl (NoMatch pattern)
          else readFileNames_loop E fs (filenames @ list) rest)"

definition readFileNames ::
  "('fs, 'fn, 'tpl, 'd) engine \<Rightarrow> 'fs \<Rightarrow> string list \<Rightarrow> error + string list" where
  "readFileNames E fs patterns = readFileNames_loop E fs [] patterns"

text \<open>The files a pattern matches; none when the pattern is malformed.\<close>

definition matches :: "('fs, 'fn, 'tpl, 'd) engine \<Rightarrow> 'fs \<Rightarrow> string \<Rightarrow> string list" where
  "matches E fs p = (case Glob E fs p of Inl _ \<Rightarrow> [] | Inr l \<Rightarrow> l)"

text \<open>
  \<open>compileTemplate(tmpl *View)\<close>: \<open>a\<close> is the address of the view. The assignment
  \<open>tmpl.template, err = ...ParseFS(...)\<close> writes the view before \<open>err\<close> is tested, so a
  failed parse leaves nil in it.
\<close>

definition compileTemplate ::
  "('fs, 'fn, 'tpl, 'd) engine \<Rightarrow> ('fs, 'fn, 'tpl) ViewRenderer \<Rightarrow> nat \<Rightarrow>
     error option \<times> ('fs, 'fn, 'tpl) ViewRenderer" where
  "compileTemplate E t a =
     (let tmpl = store t ! a;
          templateName = Base (name tmpl);
          t1 = emit (LogDebug ''register template'') t;
          patterns0 = [];
          patterns1 = (if layout tmpl \<noteq> [] then patterns0 @ [layout tmpl] else patterns0);
          patterns2 = (if includes' tmpl \<noteq> [] then patterns1 @ [includes' tmpl] else patterns1);
          patterns3 = patterns2 @ [name tmpl]
      in case ParseFS E templateName (templateFuncs t1) (fsys t1) patterns3 of
           Inl err \<Rightarrow>
             (Some (ParseFailed (name tmpl) err),
              t1\<lparr>store := (store t1)[a := tmpl\<lparr>template := None\<rparr>]\<rparr>)
         | Inr tp \<Rightarrow>
             (None,
              t1\<lparr>store := (store t1)[a := tmpl\<lparr>template := Some tp\<rparr>],
                 templates := (templates t1)(templateName \<mapsto> a)\<rparr>))"

text \<open>The pattern list \<open>compileTemplate\<close> builds for a view, in closed form.\<close>

definition source_patterns :: "'tpl View \<Rightarrow> string list" where
  "source_patterns v =
     (if layout v = [] then [] else [layout v]) @
     (if includes' v = [] then [] else [includes' v]) @ [name v]"

subsection \<open>Registration\<close>

text \<open>
  The loop \<open>for _, f := range filenames\<close> shared by the three registration functions:
  \<open>mk f\<close> is the view literal of the function, and the first compile error ends the
  loop.
\<close>

fun registerAll ::
  "('fs, 'fn, 'tpl, 'd) engine \<Rightarrow> (string \<Rightarrow> 'tpl View) \<Rightarrow> ('fs, 'fn, 'tpl) ViewRenderer \<Rightarrow>
     string list \<Rightarrow> error option \<times> ('fs, 'fn, 'tpl) ViewRenderer" where
  "registerAll E mk t [] = (None, t)"
| "registerAll E mk t (f # rest) =
     (case alloc (mk f) t of
        (tpl, t1) \<Rightarrow>
          (case compileTemplate E t1 tpl of
             (Some err, t2) \<Rightarrow> (Some err, t2)
           | (None, t2) \<Rightarrow> registerAll E mk t2 rest))"

definition AddWithLayout ::
  "('fs, 'fn, 'tpl, 'd) engine \<Rightarrow> ('fs, 'fn, 'tpl) ViewRenderer \<Rightarrow> string \<Rightarrow> string list \<Rightarrow>
     error option \<times> ('fs, 'fn, 'tpl) ViewRenderer" where
  "AddWithLayout E t lay patterns =
     (case readFileNames E (fsys t) patterns of
        Inl err \<Rightarrow> (Some (ListFailed err), t)
      | Inr filenames \<Rightarrow>
          registerAll E (\<lambda>f. \<lparr>layout = lay, name = f, includes' = [], template = None\<rparr>)
            t filenames)"

definition AddWithLayoutAndIncludes ::
  "('fs, 'fn, 'tpl, 'd) engine \<Rightarrow> ('fs, 'fn, 'tpl) ViewRenderer \<Rightarrow> string \<Rightarrow> string \<Rightarrow>
     string list \<Rightarrow> error option \<times> ('fs, 'fn, 'tpl) ViewRenderer" where
  "AddWithLayoutAndIncludes E t lay inc patterns =
     (case readFileNames E (fsys t) patterns of
        Inl err \<Rightarrow> (Some (ListFailed err), t)
      | Inr filenames \<Rightarrow>
          registerAll E (\<lambda>f. \<lparr>layout = lay, name = f, includes' = inc, template = None\<rparr>)
            t filenames)"

definition Add ::
  "('fs, 'fn, 'tpl, 'd) engine \<Rightarrow> ('fs, 'fn, 'tpl) ViewRenderer \<Rightarrow> string list \<Rightarrow>
     error option \<times> ('fs, 'fn, 'tpl) ViewRenderer" where
  "Add E t patterns =
     (case readFileNames E (fsys t) patterns of
        Inl err \<Rightarrow> (Some (ReadNamesFailed err), t)
      | Inr filenames \<Rightarrow>
          registerAll E (\<lambda>f. \<lparr>layout = [], name = f, includes' = [], template = None\<rparr>)
            t filenames)"

text \<open>
  The registry after the views of the files \<open>fs\<close> were stored one after the other at
  the addresses \<open>n\<close>, \<open>n + 1\<close>, ..., each under the base name of its file: what the
  registration loop leaves when every compile succeeds.
\<close>

fun bind_keys :: "(string \<rightharpoonup> nat) \<Rightarrow> nat \<Rightarrow> string list \<Rightarrow> (string \<rightharpoonup> nat)" where
  "bind_keys m n [] = m"
| "bind_keys m n (f # fs) = bind_keys (m(Base f \<mapsto> n)) (Suc n) fs"

subsection \<open>The renderer\<close>

definition lookupTemplate ::
  "('fs, 'fn, 'tpl, 'd) engine \<Rightarrow> ('fs, 'fn, 'tpl) ViewRenderer \<Rightarrow> string \<Rightarrow>
     (error + nat) \<times> ('fs, 'fn, 'tpl) ViewRenderer" where
  "lookupTemplate E t nm =
     (case templates t nm of
        None \<Rightarrow> (Inl (NotFound nm), t)
      | Some tmpl \<Rightarrow>
          if \<not> autoReload t then (Inr tmpl, t)
          else
            (case compileTemplate E t tmpl of
               (Some err, t1) \<Rightarrow> (Inl err, t1)
             | (None, t1) \<Rightarrow> (Inr tmpl, t1)))"

text \<open>
  \<open>Render(w, name, data, c)\<close>: the result is what the call returns (or that it
  panics), the bytes written to \<open>w\<close>, and the renderer afterwards.
\<close>

definition Render ::
  "('fs, 'fn, 'tpl, 'd) engine \<Rightarrow> ('fs, 'fn, 'tpl) ViewRenderer \<Rightarrow> string \<Rightarrow> 'd \<Rightarrow> Context \<Rightarrow>
     error option outcome \<times> string \<times> ('fs, 'fn, 'tpl) ViewRenderer" where
  "Render E t nm data c =
     (let t0 = emit (LogDebugCtx ''Render'') t in
      case lookupTemplate E t0 nm of
        (Inl err, t1) \<Rightarrow>
          (let t2 = emit (LogErrorCtx ''failed to load template'' err) t1;
               t3 = emit (NoContentSent 500) t2
           in (Returns (NoContent c 500), [], t3))
      | (Inr a, t1) \<Rightarrow>
          (let tmpl = store t1 ! a;
               execName0 = Base (name tmpl);
               execName = (if layout tmpl \<noteq> [] then Base (layout tmpl) else execName0)
           in case template tmpl of
                None \<Rightarrow> (Panics, [], t1)
              | Some tp \<Rightarrow>
                  (case ExecuteTemplate E tp execName data of
                     (written, Some err) \<Rightarrow>
                       (Returns (Some err), written,
                        emit (LogErrorCtx ''failed to execute template'' err) t1)
                   | (written, None) \<Rightarrow>
                       (Returns None, written, emit (LogDebugCtx ''Render complete'') t1))))"

text \<open>
  \<open>RenderToHTMLBlob(c, code, name, data)\<close>: \<open>Render\<close> writes into a new buffer.
\<close>

definition RenderToHTMLBlob ::
  "('fs, 'fn, 'tpl, 'd) engine \<Rightarrow> ('fs, 'fn, 'tpl) ViewRenderer \<Rightarrow> Context \<Rightarrow> int \<Rightarrow> string \<Rightarrow>
     'd \<Rightarrow> error option outcome \<times> ('fs, 'fn, 'tpl) ViewRenderer" where
  "RenderToHTMLBlob E t c code nm data =
     (case Render E t nm data c of
        (Panics, buf, t1) \<Rightarrow> (Panics, t1)
      | (Returns (Some err), buf, t1) \<Rightarrow> (Returns (Some err), t1)
      | (Returns None, buf, t1) \<Rightarrow>
          (Returns (HTMLBlob c code buf), emit (HTMLBlobSent code buf) t1))"

subsection \<open>Reachable renderer states\<close>

text \<open>
  What every registry entry satisfies in a renderer that is configured once, by
  \<open>New\<close>: its address is allocated, its key is the base name of the view's page file,
  and outside reload mode the view holds an artifact.
\<close>

definition registry_ok :: "('fs, 'fn, 'tpl) ViewRenderer \<Rightarrow> bool" where
  "registry_ok t \<longleftrightarrow>
     (\<forall>k a. templates t k = Some a \<longrightarrow>
        a < length (store t) \<and> Base (name (store t ! a)) = k \<and>
        (autoReload t \<or> template (store t ! a) \<noteq> None))"

text \<open>
  The states of a renderer that is configured once, by \<open>New\<close>: any sequence of
  registrations and renders after it, while the content of the file collection may
  change at any moment (\<open>fsys\<close> holds its current content). No option is applied to
  the renderer after \<open>New\<close>.
\<close>

inductive reachable ::
  "('fs, 'fn, 'tpl, 'd) engine \<Rightarrow> ('fs, 'fn, 'tpl) ViewRenderer \<Rightarrow> bool" for E where
  r_New: "reachable E (New fs ar fn)"
| r_Add: "reachable E t \<Longrightarrow> reachable E (snd (Add E t patterns))"
| r_AddWithLayout: "reachable E t \<Longrightarrow> reachable E (snd (AddWithLayout E t lay patterns))"
| r_AddWithLayoutAndIncludes:
    "reachable E t \<Longrightarrow> reachable E (snd (AddWithLayoutAndIncludes E t lay inc patterns))"
| r_Render: "reachable E t \<Longrightarrow> reachable E (snd (snd (Render E t nm data c)))"
| r_RenderToHTMLBlob: "reachable E t \<Longrightarrow> reachable E (snd (RenderToHTMLBlob E t c code nm data))"
| r_files_change: "reachable E t \<Longrightarrow> reachable E (t\<lparr>fsys := fs\<rparr>)"

text \<open>
  What every registry entry satisfies whatever the program does: its address is
  allocated and its key is the base name of the view's page file.
\<close>

definition keys_ok :: "('fs, 'fn, 'tpl) ViewRenderer \<Rightarrow> bool" where
  "keys_ok t \<longleftrightarrow>
     (\<forall>k a. templates t k = Some a \<longrightarrow>
        a < length (store t) \<and> Base (name (store t ! a)) = k)"

text \<open>
  The states a program can bring a renderer to: as above, and any option may be
  applied to the renderer at any moment.
\<close>

inductive live ::
  "('fs, 'fn, 'tpl, 'd) engine \<Rightarrow> ('fs, 'fn, 'tpl) ViewRenderer \<Rightarrow> bool" for E where
  l_New: "live E (New fs ar fn)"
| l_Add: "live E t \<Longrightarrow> live E (snd (Add E t patterns))"
| l_AddWithLayout: "live E t \<Longrightarrow> live E (snd (AddWithLayout E t lay patterns))"
| l_AddWithLayoutAndIncludes:
    "live E t \<Longrightarrow> live E (snd (AddWithLayoutAndIncludes E t lay inc patterns))"
| l_Render: "live E t \<Longrightarrow> live E (snd (snd (Render E t nm data c)))"
| l_RenderToHTMLBlob: "live E t \<Longrightarrow> live E (snd (RenderToHTMLBlob E t c code nm data))"
| l_files_change: "live E t \<Longrightarrow> live E (t\<lparr>fsys := fs\<rparr>)"
| l_WithFS: "live E t \<Longrightarrow> live E (WithFS fs t)"
| l_WithAutoReload: "live E t \<Longrightarrow> live E (WithAutoReload enabled t)"
| l_WithFuncs: "live E t \<Longrightarrow> live E (WithFuncs funcs t)"

subsection \<open>A small engine and file collection for concrete runs\<close>

text \<open>
  A file collection lists its file names, the matches of its wildcard patterns, and the
  files whose content does not parse. A file name is a pattern that matches itself,
  and \<open>[\<close> is a malformed pattern. An artifact records its name and the files parsed
  into it; executing it writes the entry-point name and the artifact name.
\<close>

record example_fs =
  files :: "string list"
  wildcards :: "(string \<times> string list) list"
  unparsable :: "string list"

definition example_Glob :: "example_fs \<Rightarrow> string \<Rightarrow> error + string list" where
  "example_Glob fs p =
     (if p = ''['' then Inl ErrBadPattern
      else case map_of (wildcards fs) p of
             Some l \<Rightarrow> Inr l
           | None \<Rightarrow> if p \<in> set (files fs) then Inr [p] else Inr [])"

definition example_ParseFS ::
  "string \<Rightarrow> unit \<Rightarrow> example_fs \<Rightarrow> string list \<Rightarrow> error + (string \<times> string list)" where
  "example_ParseFS nm fn fs patterns =
     (if list_ex (\<lambda>p. case example_Glob fs p of Inl _ \<Rightarrow> True | Inr l \<Rightarrow> l = []) patterns
      then Inl (External ''pattern matches no files'')
      else
        let parsed = concat (map (\<lambda>p. case example_Glob fs p of Inl _ \<Rightarrow> [] | Inr l \<Rightarrow> l) patterns)
        in if list_ex (\<lambda>f. f \<in> set (unparsable fs)) parsed then Inl (External ''syntax error'')
           else Inr (nm, parsed))"

definition example_Execute ::
  "string \<times> string list \<Rightarrow> string \<Rightarrow> unit \<Rightarrow> string \<times> error option" where
  "example_Execute tp execName data = (execName @ '' '' @ fst tp, None)"

definition example_engine :: "(example_fs, unit, string \<times> string list, unit) engine" where
  "example_engine =
     \<lparr>Glob = example_Glob, ParseFS = example_ParseFS, ExecuteTemplate = example_Execute\<rparr>"

definition example_files :: example_fs where
  "example_files =
     \<lparr>files = [''layout.html'', ''pages/about.html'', ''pages/index.html'', ''a/x.html'',
               ''b/x.html''],
      wildcards = [(''pages/*.html'', [''pages/about.html'', ''pages/index.html'']),
                   (''*/x.html'', [''a/x.html'', ''b/x.html''])],
      unparsable = []\<rparr>"

definition broken_files :: example_fs where
  "broken_files = example_files\<lparr>unparsable := [''pages/index.html'']\<rparr>"

definition ctx_ok :: Context where
  "ctx_ok = \<lparr>NoContent = (\<lambda>code. None), HTMLBlob = (\<lambda>code b. None)\<rparr>"

text \<open>A response context whose writes fail.\<close>

definition ctx_closed :: Context where
  "ctx_closed =
     \<lparr>NoContent = (\<lambda>code. Some (External ''connection closed'')),
      HTMLBlob = (\<lambda>code b. Some (External ''connection closed''))\<rparr>"

text \<open>
  Two renderers over the example file collection, with the two pages registered: one
  in reload mode, one that compiles once.
\<close>

definition reload_renderer :: "(example_fs, unit, string \<times> string list) ViewRenderer" where
  "reload_renderer = snd (Add example_engine (New example_files True ()) [''pages/*.html''])"

definition cached_renderer :: "(example_fs, unit, string \<times> string list) ViewRenderer" where
  "cached_renderer = snd (Add example_engine (New example_files False ()) [''pages/*.html''])"


text \<open>
  The reloading renderer after \<open>pages/index.html\<close> stopped parsing and the page was
  rendered once.
\<close>

definition after_failed_reload :: "(example_fs, unit, string \<times> string list) ViewRenderer" where
  "after_failed_reload =
     snd (snd (Render example_engine (reload_renderer\<lparr>fsys := broken_files\<rparr>)
                 ''index.html'' () ctx_ok))"

section \<open>Facts about the operations\<close>

subsection \<open>The compiler and the registry\<close>

lemma emit_simps:
  "fsys (emit e t) = fsys t" "autoReload (emit e t) = autoReload t"
  "templates (emit e t) = templates t" "templateFuncs (emit e t) = templateFuncs t"
  "store (emit e t) = store t" "trace (emit e t) = trace t @ [e]"
  by (simp_all add: emit_def)

lemma compileTemplate_cases [case_names fail ok]:
  obtains
    (fail) err where
      "ParseFS E (Base (name (store t ! a))) (templateFuncs t) (fsys t)
         (source_patterns (store t ! a)) = Inl err"
      "compileTemplate E t a =
         (Some (ParseFailed (name (store t ! a)) err),
          t\<lparr>store := (store t)[a := (store t ! a)\<lparr>template := None\<rparr>],
            trace := trace t @ [LogDebug ''register template'']\<rparr>)"
  | (ok) tp where
      "ParseFS E (Base (name (store t ! a))) (templateFuncs t) (fsys t)
         (source_patterns (store t ! a)) = Inr tp"
      "compileTemplate E t a =
         (None,
          t\<lparr>store := (store t)[a := (store t ! a)\<lparr>template := Some tp\<rparr>],
            templates := (templates t)(Base (name (store t ! a)) \<mapsto> a),
            trace := trace t @ [LogDebug ''register template'']\<rparr>)"
proof (cases "ParseFS E (Base (name (store t ! a))) (templateFuncs t) (fsys t)
         (source_patterns (store t ! a))")
  case (Inl err)
  then have "compileTemplate E t a =
         (Some (ParseFailed (name (store t ! a)) err),
          t\<lparr>store := (store t)[a := (store t ! a)\<lparr>template := None\<rparr>],
            trace := trace t @ [LogDebug ''register template'']\<rparr>)"
    by (cases "layout (store t ! a) = []"; cases "includes' (store t ! a) = []")
       (simp_all add: compileTemplate_def emit_def Let_def source_patterns_def)
  with Inl show ?thesis by (rule fail)
next
  case (Inr tp)
  then have "compileTemplate E t a =
         (None,
          t\<lparr>store := (store t)[a := (store t ! a)\<lparr>template := Some tp\<rparr>],
            templates := (templates t)(Base (name (store t ! a)) \<mapsto> a),
            trace := trace t @ [LogDebug ''register template'']\<rparr>)"
    by (cases "layout (store t ! a) = []"; cases "includes' (store t ! a) = []")
       (simp_all add: compileTemplate_def emit_def Let_def source_patterns_def)
  with Inr show ?thesis by (rule ok)
qed

lemma compileTemplate_frame:
  "fsys (snd (compileTemplate E t a)) = fsys t"
  "autoReload (snd (compileTemplate E t a)) = autoReload t"
  "templateFuncs (snd (compileTemplate E t a)) = templateFuncs t"
  "length (store (snd (compileTemplate E t a))) = length (store t)"
  "trace (snd (compileTemplate E t a)) = trace t @ [LogDebug ''register template'']"
  by (rule compileTemplate_cases[where E=E and t=t and a=a]; simp)+


lemma nth_update_field:
  assumes "\<And>v. f (g v) = f v"
  shows "f (xs[a := g (xs ! a)] ! i) = f (xs ! i)"
proof (cases "a < length xs \<and> i = a")
  case True
  then show ?thesis by (simp add: assms)
next
  case False
  then have "xs[a := g (xs ! a)] ! i = xs ! i"
  proof (cases "a < length xs")
    case True
    with False show ?thesis by simp
  next
    case False
    then have "length xs \<le> a" by simp
    then have "xs[a := g (xs ! a)] = xs" by (rule list_update_beyond)
    then show ?thesis by simp
  qed
  then show ?thesis by simp
qed

lemma compileTemplate_names:
  "name (store (snd (compileTemplate E t a)) ! i) = name (store t ! i)"
  "layout (store (snd (compileTemplate E t a)) ! i) = layout (store t ! i)"
  "includes' (store (snd (compileTemplate E t a)) ! i) = includes' (store t ! i)"
proof -
  have n: "\<And>x. name ((store t)[a := (store t ! a)\<lparr>template := x\<rparr>] ! i) = name (store t ! i)"
    by (rule nth_update_field) simp
  have l: "\<And>x. layout ((store t)[a := (store t ! a)\<lparr>template := x\<rparr>] ! i) = layout (store t ! i)"
    by (rule nth_update_field) simp
  have c: "\<And>x. includes' ((store t)[a := (store t ! a)\<lparr>template := x\<rparr>] ! i) =
      includes' (store t ! i)"
    by (rule nth_update_field) simp
  show "name (store (snd (compileTemplate E t a)) ! i) = name (store t ! i)"
    by (rule compileTemplate_cases[where E=E and t=t and a=a]) (simp_all add: n)
  show "layout (store (snd (compileTemplate E t a)) ! i) = layout (store t ! i)"
    by (rule compileTemplate_cases[where E=E and t=t and a=a]) (simp_all add: l)
  show "includes' (store (snd (compileTemplate E t a)) ! i) = includes' (store t ! i)"
    by (rule compileTemplate_cases[where E=E and t=t and a=a]) (simp_all add: c)
qed

lemma compileTemplate_ok:
  "fst (compileTemplate E t a) = None \<Longrightarrow> a < length (store t) \<Longrightarrow>
   template (store (snd (compileTemplate E t a)) ! a) \<noteq> None \<and>
   templates (snd (compileTemplate E t a)) = (templates t)(Base (name (store t ! a)) \<mapsto> a)"
  by (rule compileTemplate_cases[where E=E and t=t and a=a]; simp)

lemma compileTemplate_fail:
  "fst (compileTemplate E t a) = Some err \<Longrightarrow>
   templates (snd (compileTemplate E t a)) = templates t"
  by (rule compileTemplate_cases[where E=E and t=t and a=a]; simp)





subsection \<open>Registration and lookup keep the registry well formed\<close>


lemma registerAll_Cons:
  "registerAll E mk t (f # rest) =
     (case fst (compileTemplate E (t\<lparr>store := store t @ [mk f]\<rparr>) (length (store t))) of
        Some err \<Rightarrow>
          (Some err, snd (compileTemplate E (t\<lparr>store := store t @ [mk f]\<rparr>) (length (store t))))
      | None \<Rightarrow>
          registerAll E mk
            (snd (compileTemplate E (t\<lparr>store := store t @ [mk f]\<rparr>) (length (store t)))) rest)"
  by (cases "compileTemplate E (t\<lparr>store := store t @ [mk f]\<rparr>) (length (store t))")
     (simp add: alloc_def split: option.splits)





lemma lookupTemplate_cases [case_names missing cached reload_failed reloaded]:
  obtains
    (missing) "templates t nm = None" "lookupTemplate E t nm = (Inl (NotFound nm), t)"
  | (cached) a where "templates t nm = Some a" "\<not> autoReload t"
      "lookupTemplate E t nm = (Inr a, t)"
  | (reload_failed) a err where "templates t nm = Some a" "autoReload t"
      "fst (compileTemplate E t a) = Some err"
      "lookupTemplate E t nm = (Inl err, snd (compileTemplate E t a))"
  | (reloaded) a where "templates t nm = Some a" "autoReload t"
      "fst (compileTemplate E t a) = None"
      "lookupTemplate E t nm = (Inr a, snd (compileTemplate E t a))"
proof (cases "templates t nm")
  case None
  then show ?thesis using missing by (simp add: lookupTemplate_def)
next
  case (Some a)
  show ?thesis
  proof (cases "autoReload t")
    case False
    with Some show ?thesis using cached by (simp add: lookupTemplate_def)
  next
    case True
    show ?thesis
    proof (cases "fst (compileTemplate E t a)")
      case None
      with Some True show ?thesis using reloaded[of a]
        by (cases "compileTemplate E t a") (simp add: lookupTemplate_def)
    next
      case (Some err)
      with \<open>templates t nm = Some a\<close> True show ?thesis using reload_failed[of a err]
        by (cases "compileTemplate E t a") (simp add: lookupTemplate_def)
    qed
  qed
qed


lemma Render_state:
  "\<exists>es. snd (snd (Render E t nm data c)) =
     (snd (lookupTemplate E (emit (LogDebugCtx ''Render'') t) nm))
       \<lparr>trace := trace (snd (lookupTemplate E (emit (LogDebugCtx ''Render'') t) nm)) @ es\<rparr> \<and>
     (\<forall>e \<in> set es. \<forall>code b. e \<noteq> HTMLBlobSent code b)"
proof (cases "lookupTemplate E (emit (LogDebugCtx ''Render'') t) nm")
  case (Pair r t1)
  show ?thesis
  proof (cases r)
    case (Inl err)
    with Pair show ?thesis
      by (auto simp: Render_def emit_def Let_def
          intro!: exI[of _ "[LogErrorCtx ''failed to load template'' err, NoContentSent 500]"])
  next
    case (Inr a)
    show ?thesis
    proof (cases "template (store t1 ! a)")
      case None
      with Pair Inr show ?thesis
        by (auto simp: Render_def Let_def intro!: exI[of _ "[]"])
    next
      case (Some tp)
      obtain written r2 where ex: "ExecuteTemplate E tp
        (if layout (store t1 ! a) \<noteq> [] then Base (layout (store t1 ! a))
         else Base (name (store t1 ! a))) data = (written, r2)"
        by (cases "ExecuteTemplate E tp
        (if layout (store t1 ! a) \<noteq> [] then Base (layout (store t1 ! a))
         else Base (name (store t1 ! a))) data")
      show ?thesis
      proof (cases r2)
        case None
        with Pair Inr Some ex show ?thesis
          by (auto simp: Render_def emit_def Let_def
              intro!: exI[of _ "[LogDebugCtx ''Render complete'']"])
      next
        case (Some err)
        with Pair Inr \<open>template (store t1 ! a) = Some tp\<close> ex show ?thesis
          by (auto simp: Render_def emit_def Let_def
              intro!: exI[of _ "[LogErrorCtx ''failed to execute template'' err]"])
      qed
    qed
  qed
qed



lemma RenderToHTMLBlob_state:
  "snd (RenderToHTMLBlob E t c code nm data) = snd (snd (Render E t nm data c)) \<or>
   snd (RenderToHTMLBlob E t c code nm data) =
     emit (HTMLBlobSent code (fst (snd (Render E t nm data c)))) (snd (snd (Render E t nm data c)))"
  by (simp add: RenderToHTMLBlob_def split: prod.splits outcome.splits option.splits)



subsection \<open>Resolving patterns\<close>






subsection \<open>The shape of a render\<close>

lemma Render_cases [case_names lookup_failed nil executed]:
  obtains
    (lookup_failed) err t1 where
      "lookupTemplate E (emit (LogDebugCtx ''Render'') t) nm = (Inl err, t1)"
      "Render E t nm data c =
         (Returns (NoContent c 500), [],
          t1\<lparr>trace := trace t1 @ [LogErrorCtx ''failed to load template'' err,
                                   NoContentSent 500]\<rparr>)"
  | (nil) a t1 where
      "lookupTemplate E (emit (LogDebugCtx ''Render'') t) nm = (Inr a, t1)"
      "template (store t1 ! a) = None"
      "Render E t nm data c = (Panics, [], t1)"
  | (executed) a t1 tp written r where
      "lookupTemplate E (emit (LogDebugCtx ''Render'') t) nm = (Inr a, t1)"
      "template (store t1 ! a) = Some tp"
      "ExecuteTemplate E tp
         (if layout (store t1 ! a) \<noteq> [] then Base (layout (store t1 ! a))
          else Base (name (store t1 ! a))) data = (written, r)"
      "Render E t nm data c =
         (Returns r, written,
          t1\<lparr>trace := trace t1 @
             [case r of None \<Rightarrow> LogDebugCtx ''Render complete''
              | Some err \<Rightarrow> LogErrorCtx ''failed to execute template'' err]\<rparr>)"
proof (cases "lookupTemplate E (emit (LogDebugCtx ''Render'') t) nm")
  case (Pair res t1)
  show ?thesis
  proof (cases res)
    case (Inl err)
    with Pair have "Render E t nm data c =
         (Returns (NoContent c 500), [],
          t1\<lparr>trace := trace t1 @ [LogErrorCtx ''failed to load template'' err,
                                   NoContentSent 500]\<rparr>)"
      by (simp add: Render_def emit_def)
    with Pair Inl show ?thesis using lookup_failed by simp
  next
    case (Inr a)
    show ?thesis
    proof (cases "template (store t1 ! a)")
      case None
      with Pair Inr have "Render E t nm data c = (Panics, [], t1)"
        by (simp add: Render_def Let_def)
      with Pair Inr None show ?thesis using nil by simp
    next
      case (Some tp)
      obtain written r where ex: "ExecuteTemplate E tp
         (if layout (store t1 ! a) \<noteq> [] then Base (layout (store t1 ! a))
          else Base (name (store t1 ! a))) data = (written, r)"
        by (cases "ExecuteTemplate E tp
         (if layout (store t1 ! a) \<noteq> [] then Base (layout (store t1 ! a))
          else Base (name (store t1 ! a))) data")
      have "Render E t nm data c =
         (Returns r, written,
          t1\<lparr>trace := trace t1 @
             [case r of None \<Rightarrow> LogDebugCtx ''Render complete''
              | Some err \<Rightarrow> LogErrorCtx ''failed to execute template'' err]\<rparr>)"
      proof (cases r)
        case None
        with Pair Inr Some ex show ?thesis by (simp add: Render_def Let_def emit_def)
      next
        case (Some err)
        with Pair Inr \<open>template (store t1 ! a) = Some tp\<close> ex show ?thesis
          by (simp add: Render_def Let_def emit_def)
      qed
      with Pair Inr Some ex show ?thesis using executed by simp
    qed
  qed
qed

lemma lookupTemplate_missing:
  "templates t nm = None \<Longrightarrow> lookupTemplate E t nm = (Inl (NotFound nm), t)"
  by (simp add: lookupTemplate_def)

lemma lookupTemplate_cached:
  "templates t nm = Some a \<Longrightarrow> \<not> autoReload t \<Longrightarrow> lookupTemplate E t nm = (Inr a, t)"
  by (simp add: lookupTemplate_def)

lemma lookupTemplate_reload:
  "templates t nm = Some a \<Longrightarrow> autoReload t \<Longrightarrow>
   lookupTemplate E t nm =
     (case fst (compileTemplate E t a) of None \<Rightarrow> Inr a | Some err \<Rightarrow> Inl err,
      snd (compileTemplate E t a))"
  by (cases "compileTemplate E t a") (simp add: lookupTemplate_def split: option.splits)

subsection \<open>The example renderers, computed\<close>

lemma example_Glob_simps:
  "Glob example_engine example_files ''pages/*.html'' =
     Inr [''pages/about.html'', ''pages/index.html'']"
  "Glob example_engine example_files ''*/x.html'' = Inr [''a/x.html'', ''b/x.html'']"
  "Glob example_engine example_files ''layout.html'' = Inr [''layout.html'']"
  by (simp_all add: example_engine_def example_Glob_def example_files_def)

lemma example_pages:
  "readFileNames example_engine example_files [''pages/*.html''] =
     Inr [''pages/about.html'', ''pages/index.html'']"
  by (simp add: readFileNames_def example_Glob_simps)

lemma example_Base:
  "Base ''pages/about.html'' = ''about.html''"
  "Base ''pages/index.html'' = ''index.html''"
  "Base ''a/x.html'' = ''x.html''"
  "Base ''b/x.html'' = ''x.html''"
  "Base ''layout.html'' = ''layout.html''"
  by (simp_all add: Base_def)

lemma example_parse_pages:
  "ParseFS example_engine ''about.html'' () example_files [''pages/about.html''] =
     Inr (''about.html'', [''pages/about.html''])"
  "ParseFS example_engine ''index.html'' () example_files [''pages/index.html''] =
     Inr (''index.html'', [''pages/index.html''])"
  "ParseFS example_engine ''index.html'' () broken_files [''pages/index.html''] =
     Inl (External ''syntax error'')"
  by (simp_all add: example_engine_def example_ParseFS_def example_Glob_def example_files_def
      broken_files_def)

lemma registered_pages:
  fixes ar :: bool
  shows "snd (Add example_engine (New example_files ar ()) [''pages/*.html'']) =
     \<lparr>fsys = example_files, autoReload = ar,
      templates = [''about.html'' \<mapsto> 0, ''index.html'' \<mapsto> 1],
      templateFuncs = (),
      store = [\<lparr>layout = [], name = ''pages/about.html'', includes' = [],
                 template = Some (''about.html'', [''pages/about.html''])\<rparr>,
               \<lparr>layout = [], name = ''pages/index.html'', includes' = [],
                 template = Some (''index.html'', [''pages/index.html''])\<rparr>],
      trace = [LogDebug ''register template'', LogDebug ''register template'']\<rparr>"
  by (simp add: Add_def New_def example_pages alloc_def compileTemplate_def emit_def Let_def
      example_Base example_parse_pages)

lemma reload_renderer_eq:
  "reload_renderer =
     \<lparr>fsys = example_files, autoReload = True,
      templates = [''about.html'' \<mapsto> 0, ''index.html'' \<mapsto> 1],
      templateFuncs = (),
      store = [\<lparr>layout = [], name = ''pages/about.html'', includes' = [],
                 template = Some (''about.html'', [''pages/about.html''])\<rparr>,
               \<lparr>layout = [], name = ''pages/index.html'', includes' = [],
                 template = Some (''index.html'', [''pages/index.html''])\<rparr>],
      trace = [LogDebug ''register template'', LogDebug ''register template'']\<rparr>"
  by (simp only: reload_renderer_def registered_pages)

lemma cached_renderer_eq:
  "cached_renderer =
     \<lparr>fsys = example_files, autoReload = False,
      templates = [''about.html'' \<mapsto> 0, ''index.html'' \<mapsto> 1],
      templateFuncs = (),
      store = [\<lparr>layout = [], name = ''pages/about.html'', includes' = [],
                 template = Some (''about.html'', [''pages/about.html''])\<rparr>,
               \<lparr>layout = [], name = ''pages/index.html'', includes' = [],
                 template = Some (''index.html'', [''pages/index.html''])\<rparr>],
      trace = [LogDebug ''register template'', LogDebug ''register template'']\<rparr>"
  by (simp only: cached_renderer_def registered_pages)


subsection \<open>What a successful lookup returns\<close>

lemma compileTemplate_emit:
  "fst (compileTemplate E (emit e t) a) = fst (compileTemplate E t a)"
  "store (snd (compileTemplate E (emit e t) a)) = store (snd (compileTemplate E t a))"
  "templates (snd (compileTemplate E (emit e t) a)) = templates (snd (compileTemplate E t a))"
  by (rule compileTemplate_cases[where E=E and t=t and a=a];
      rule compileTemplate_cases[where E=E and t="emit e t" and a=a];
      simp add: emit_simps)+

lemma lookupTemplate_emit:
  "fst (lookupTemplate E (emit e t) nm) = fst (lookupTemplate E t nm)"
  "store (snd (lookupTemplate E (emit e t) nm)) = store (snd (lookupTemplate E t nm))"
  "templates (snd (lookupTemplate E (emit e t) nm)) = templates (snd (lookupTemplate E t nm))"
  by (cases "templates t nm"; cases "autoReload t";
      simp add: lookupTemplate_missing lookupTemplate_cached lookupTemplate_reload emit_simps
        compileTemplate_emit)+

lemma lookupTemplate_found:
  assumes ok: "registry_ok t" and found: "fst (lookupTemplate E t nm) = Inr a"
  shows "templates t nm = Some a"
    and "a < length (store t)"
    and "template (store (snd (lookupTemplate E t nm)) ! a) \<noteq> None"
    and "name (store (snd (lookupTemplate E t nm)) ! a) = name (store t ! a)"
    and "layout (store (snd (lookupTemplate E t nm)) ! a) = layout (store t ! a)"
proof -
  have "templates t nm = Some a \<and> a < length (store t) \<and>
    template (store (snd (lookupTemplate E t nm)) ! a) \<noteq> None \<and>
    name (store (snd (lookupTemplate E t nm)) ! a) = name (store t ! a) \<and>
    layout (store (snd (lookupTemplate E t nm)) ! a) = layout (store t ! a)"
  proof (cases rule: lookupTemplate_cases[where E=E and t=t and nm=nm])
    case missing
    with found show ?thesis by simp
  next
    case (cached b)
    with found have "b = a" by simp
    with cached ok show ?thesis by (simp add: registry_ok_def)
  next
    case (reload_failed b err)
    with found show ?thesis by simp
  next
    case (reloaded b)
    with found have ba: "b = a" by simp
    with reloaded ok have lt: "a < length (store t)" by (simp add: registry_ok_def)
    from compileTemplate_ok[of E t a] reloaded ba lt
    have "template (store (snd (compileTemplate E t a)) ! a) \<noteq> None" by simp
    with reloaded ba lt show ?thesis by (simp add: compileTemplate_names)
  qed
  then show "templates t nm = Some a"
    and "a < length (store t)"
    and "template (store (snd (lookupTemplate E t nm)) ! a) \<noteq> None"
    and "name (store (snd (lookupTemplate E t nm)) ! a) = name (store t ! a)"
    and "layout (store (snd (lookupTemplate E t nm)) ! a) = layout (store t ! a)"
    by simp_all
qed


lemma Render_never_panics:
  assumes ok: "registry_ok t"
  shows "fst (Render E t nm data c) \<noteq> Panics"
proof (cases rule: Render_cases[where E=E and t=t and nm=nm and data=data and c=c])
  case (lookup_failed err t1)
  then show ?thesis by simp
next
  case (nil a t1)
  have "fst (lookupTemplate E (emit (LogDebugCtx ''Render'') t) nm) = Inr a"
    "store (snd (lookupTemplate E (emit (LogDebugCtx ''Render'') t) nm)) = store t1"
    by (simp_all add: nil(1))
  then have found: "fst (lookupTemplate E t nm) = Inr a"
    and st: "store (snd (lookupTemplate E t nm)) = store t1"
    by (simp_all add: lookupTemplate_emit)
  from lookupTemplate_found(3)[OF ok found] nil(2) st show ?thesis by simp
next
  case (executed a t1 tp written r)
  then show ?thesis by simp
qed

subsection \<open>Rendering without reload\<close>

lemma Render_no_reload:
  assumes "\<not> autoReload t"
  shows "Render E t nm data c =
     (case templates t nm of
        None \<Rightarrow>
          (Returns (NoContent c 500), [],
           t\<lparr>trace := trace t @ [LogDebugCtx ''Render'',
               LogErrorCtx ''failed to load template'' (NotFound nm), NoContentSent 500]\<rparr>)
      | Some a \<Rightarrow>
          (case template (store t ! a) of
             None \<Rightarrow> (Panics, [], t\<lparr>trace := trace t @ [LogDebugCtx ''Render'']\<rparr>)
           | Some tp \<Rightarrow>
               (Returns (snd (ExecuteTemplate E tp
                   (if layout (store t ! a) \<noteq> [] then Base (layout (store t ! a))
                    else Base (name (store t ! a))) data)),
                fst (ExecuteTemplate E tp
                   (if layout (store t ! a) \<noteq> [] then Base (layout (store t ! a))
                    else Base (name (store t ! a))) data),
                t\<lparr>trace := trace t @ [LogDebugCtx ''Render'',
                    case snd (ExecuteTemplate E tp
                       (if layout (store t ! a) \<noteq> [] then Base (layout (store t ! a))
                        else Base (name (store t ! a))) data) of
                      None \<Rightarrow> LogDebugCtx ''Render complete''
                    | Some err \<Rightarrow> LogErrorCtx ''failed to execute template'' err]\<rparr>)))"
proof (cases "templates t nm")
  case None
  then show ?thesis by (simp add: Render_def lookupTemplate_def emit_def)
next
  case (Some a)
  have l: "lookupTemplate E (emit (LogDebugCtx ''Render'') t) nm =
      (Inr a, emit (LogDebugCtx ''Render'') t)"
    using Some assms by (simp add: lookupTemplate_cached emit_simps)
  show ?thesis
  proof (cases rule: Render_cases[where E=E and t=t and nm=nm and data=data and c=c])
    case (lookup_failed err t1)
    with l show ?thesis by simp
  next
    case (nil b t1)
    with l have "b = a" "t1 = emit (LogDebugCtx ''Render'') t" by simp_all
    with nil Some show ?thesis by (simp add: emit_def)
  next
    case (executed b t1 tp written r)
    with l have "b = a" "t1 = emit (LogDebugCtx ''Render'') t" by simp_all
    with executed Some show ?thesis by (simp add: emit_def cong: if_cong)
  qed
qed

lemma Render_trace:
  "\<exists>es. trace (snd (snd (Render E t nm data c))) = trace t @ es \<and>
        (\<forall>code b. HTMLBlobSent code b \<notin> set es)"
proof -
  let ?t0 = "emit (LogDebugCtx ''Render'') t"
  have "\<exists>es. trace (snd (lookupTemplate E ?t0 nm)) = trace t @ es \<and>
        (\<forall>code b. HTMLBlobSent code b \<notin> set es)"
  proof (cases rule: lookupTemplate_cases[where E=E and t="?t0" and nm=nm])
    case missing
    then show ?thesis by (simp add: emit_simps)
  next
    case (cached a)
    then show ?thesis by (simp add: emit_simps)
  next
    case (reload_failed a err)
    then show ?thesis by (simp add: emit_simps compileTemplate_frame)
  next
    case (reloaded a)
    then show ?thesis by (simp add: emit_simps compileTemplate_frame)
  qed
  then obtain es where es: "trace (snd (lookupTemplate E ?t0 nm)) = trace t @ es"
    "\<forall>code b. HTMLBlobSent code b \<notin> set es" by blast
  from Render_state[of E t nm data c] obtain es' where es':
    "snd (snd (Render E t nm data c)) =
      (snd (lookupTemplate E ?t0 nm))\<lparr>trace := trace (snd (lookupTemplate E ?t0 nm)) @ es'\<rparr>"
    "\<forall>e \<in> set es'. \<forall>code b. e \<noteq> HTMLBlobSent code b" by blast
  from es es' have "trace (snd (snd (Render E t nm data c))) = trace t @ (es @ es') \<and>
        (\<forall>code b. HTMLBlobSent code b \<notin> set (es @ es'))" by auto
  then show ?thesis by blast
qed



lemma example_engine_simps:
  "Glob example_engine = example_Glob"
  "ParseFS example_engine = example_ParseFS"
  "ExecuteTemplate example_engine = example_Execute"
  by (simp_all add: example_engine_def)

lemma Render_no_reload_cong:
  assumes "\<not> autoReload t" and "\<not> autoReload t'"
    and "templates t' = templates t" and "store t' = store t"
  shows "fst (Render E t' nm data c) = fst (Render E t nm data c)"
    and "fst (snd (Render E t' nm data c)) = fst (snd (Render E t nm data c))"
  unfolding Render_no_reload[OF assms(1)] Render_no_reload[OF assms(2)]
  by (simp_all add: assms(3,4) split: option.splits)

subsection \<open>A registration whose files all compile\<close>

lemma bind_keys_other:
  "k \<notin> Base ` set fs \<Longrightarrow> bind_keys m n fs k = m k"
  by (induction fs arbitrary: m n) auto

lemma bind_keys_last:
  "Base f \<notin> Base ` set post \<Longrightarrow>
   bind_keys m n (pre @ f # post) (Base f) = Some (n + length pre)"
proof (induction pre arbitrary: m n)
  case Nil
  then show ?case by (simp add: bind_keys_other)
next
  case (Cons x pre)
  have "bind_keys m n ((x # pre) @ f # post) (Base f) =
      bind_keys (m(Base x \<mapsto> n)) (Suc n) (pre @ f # post) (Base f)" by simp
  also have "\<dots> = Some (Suc n + length pre)" by (rule Cons.IH[OF Cons.prems])
  finally show ?case by simp
qed

lemma bind_keys_bound:
  "k \<in> Base ` set fs \<Longrightarrow>
   \<exists>i < length fs. bind_keys m n fs k = Some (n + i) \<and> Base (fs ! i) = k"
proof (induction fs arbitrary: m n)
  case Nil
  then show ?case by simp
next
  case (Cons f fs)
  show ?case
  proof (cases "k \<in> Base ` set fs")
    case True
    from Cons.IH[OF True, of "m(Base f \<mapsto> n)" "Suc n"]
    obtain i where "i < length fs" "bind_keys (m(Base f \<mapsto> n)) (Suc n) fs k = Some (Suc n + i)"
      "Base (fs ! i) = k" by blast
    then have "Suc i < length (f # fs) \<and> bind_keys m n (f # fs) k = Some (n + Suc i) \<and>
      Base ((f # fs) ! Suc i) = k" by simp
    then show ?thesis by blast
  next
    case False
    with Cons.prems have "k = Base f" by auto
    with False have "0 < length (f # fs) \<and> bind_keys m n (f # fs) k = Some (n + 0) \<and>
      Base ((f # fs) ! 0) = k" by (simp add: bind_keys_other)
    then show ?thesis by blast
  qed
qed

lemma registerAll_success:
  assumes mk: "\<And>f. mk f = \<lparr>layout = lay, name = f, includes' = inc, template = None\<rparr>"
    and parse: "\<forall>f \<in> set fs. ParseFS E (Base f) (templateFuncs t) (fsys t)
                  (source_patterns (mk f)) = Inr (art f)"
  shows "registerAll E mk t fs =
     (None,
      t\<lparr>store := store t @ map (\<lambda>f. (mk f)\<lparr>template := Some (art f)\<rparr>) fs,
        templates := bind_keys (templates t) (length (store t)) fs,
        trace := trace t @ replicate (length fs) (LogDebug ''register template'')\<rparr>)"
  using parse
proof (induction fs arbitrary: t)
  case Nil
  show ?case by simp
next
  case (Cons f fs)
  let ?t1 = "t\<lparr>store := store t @ [mk f]\<rparr>"
  let ?a = "length (store t)"
  let ?t2 = "t\<lparr>store := store t @ [(mk f)\<lparr>template := Some (art f)\<rparr>],
               templates := (templates t)(Base f \<mapsto> ?a),
               trace := trace t @ [LogDebug ''register template'']\<rparr>"
  have v: "store ?t1 ! ?a = mk f" by simp
  have nm: "name (mk f) = f" by (simp add: mk)
  have sp: "source_patterns ((mk f)\<lparr>template := x\<rparr>) = source_patterns (mk f)" for x
    by (simp add: source_patterns_def)
  from Cons.prems have p: "ParseFS E (Base f) (templateFuncs t) (fsys t)
                  (source_patterns (mk f)) = Inr (art f)" by simp
  have c: "compileTemplate E ?t1 ?a = (None, ?t2)"
    by (rule compileTemplate_cases[where E=E and t="?t1" and a="?a"])
       (simp_all add: v nm p)
  have step: "registerAll E mk t (f # fs) = registerAll E mk ?t2 fs"
    by (simp add: registerAll_Cons c del: registerAll.simps)
  from Cons.prems have "\<forall>g \<in> set fs. ParseFS E (Base g) (templateFuncs ?t2) (fsys ?t2)
                  (source_patterns (mk g)) = Inr (art g)" by simp
  from Cons.IH[OF this] have "registerAll E mk ?t2 fs =
     (None,
      ?t2\<lparr>store := store ?t2 @ map (\<lambda>f. (mk f)\<lparr>template := Some (art f)\<rparr>) fs,
        templates := bind_keys (templates ?t2) (length (store ?t2)) fs,
        trace := trace ?t2 @ replicate (length fs) (LogDebug ''register template'')\<rparr>)" .
  also have "\<dots> =
     (None,
      t\<lparr>store := store t @ map (\<lambda>f. (mk f)\<lparr>template := Some (art f)\<rparr>) (f # fs),
        templates := bind_keys (templates t) (length (store t)) (f # fs),
        trace := trace t @ replicate (length (f # fs)) (LogDebug ''register template'')\<rparr>)"
    by simp
  finally show ?case by (simp only: step)
qed

lemma Base_no_slash: "CHR ''/'' \<in> set (Base p) \<Longrightarrow> Base p = ''/''"
proof -
  assume s: "CHR ''/'' \<in> set (Base p)"
  let ?p1 = "rev (dropWhile (\<lambda>c. c = CHR ''/'') (rev p))"
  let ?p2 = "rev (takeWhile (\<lambda>c. c \<noteq> CHR ''/'') (rev ?p1))"
  have no: "CHR ''/'' \<notin> set ?p2"
    using set_takeWhileD[of "CHR ''/''" "\<lambda>c. c \<noteq> CHR ''/''" "rev ?p1"] by auto
  show ?thesis
  proof (cases "p = []")
    case True
    with s show ?thesis by (simp add: Base_def)
  next
    case False
    show ?thesis
    proof (cases "?p2 = []")
      case True
      with False show ?thesis by (simp add: Base_def Let_def)
    next
      case np: False
      with False have "Base p = ?p2" by (simp add: Base_def Let_def)
      with s no show ?thesis by simp
    qed
  qed
qed

lemma Add_success:
  assumes "readFileNames E (fsys t) ps = Inr fs"
    and "\<forall>f \<in> set fs. ParseFS E (Base f) (templateFuncs t) (fsys t) [f] = Inr (art f)"
  shows "Add E t ps =
     (None,
      t\<lparr>store := store t @
           map (\<lambda>f. \<lparr>layout = [], name = f, includes' = [], template = Some (art f)\<rparr>) fs,
        templates := bind_keys (templates t) (length (store t)) fs,
        trace := trace t @ replicate (length fs) (LogDebug ''register template'')\<rparr>)"
proof -
  let ?mk = "\<lambda>f. \<lparr>layout = [], name = f, includes' = [], template = None :: 'c option\<rparr>"
  have "\<forall>f \<in> set fs. ParseFS E (Base f) (templateFuncs t) (fsys t)
                  (source_patterns (?mk f)) = Inr (art f)"
    using assms(2) by (simp add: source_patterns_def)
  from registerAll_success[of ?mk "[]" "[]", OF _ this] assms(1)
  show ?thesis by (simp add: Add_def)
qed

lemma AddWithLayout_success:
  assumes "readFileNames E (fsys t) ps = Inr fs"
    and "\<forall>f \<in> set fs. ParseFS E (Base f) (templateFuncs t) (fsys t)
           ((if lay = [] then [] else [lay]) @ [f]) = Inr (art f)"
  shows "AddWithLayout E t lay ps =
     (None,
      t\<lparr>store := store t @
           map (\<lambda>f. \<lparr>layout = lay, name = f, includes' = [], template = Some (art f)\<rparr>) fs,
        templates := bind_keys (templates t) (length (store t)) fs,
        trace := trace t @ replicate (length fs) (LogDebug ''register template'')\<rparr>)"
proof -
  let ?mk = "\<lambda>f. \<lparr>layout = lay, name = f, includes' = [], template = None :: 'c option\<rparr>"
  have "\<forall>f \<in> set fs. ParseFS E (Base f) (templateFuncs t) (fsys t)
                  (source_patterns (?mk f)) = Inr (art f)"
    using assms(2) by (cases "lay = []") (simp_all add: source_patterns_def)
  from registerAll_success[of ?mk lay "[]", OF _ this] assms(1)
  show ?thesis by (simp add: AddWithLayout_def)
qed

subsection \<open>The registry keys are base names in every state\<close>

lemma keys_ok_New: "keys_ok (New fs ar fn)"
  by (simp add: keys_ok_def New_def)

lemma keys_ok_updates:
  "keys_ok (emit e t) = keys_ok t"
  "keys_ok (t\<lparr>trace := es\<rparr>) = keys_ok t"
  "keys_ok (t\<lparr>fsys := fs\<rparr>) = keys_ok t"
  "keys_ok (WithFS fs t) = keys_ok t"
  "keys_ok (WithAutoReload b t) = keys_ok t"
  "keys_ok (WithFuncs fn t) = keys_ok t"
  by (simp_all add: keys_ok_def emit_def WithFS_def WithAutoReload_def WithFuncs_def)

lemma keys_ok_compileTemplate:
  assumes ok: "keys_ok t" and a: "a < length (store t)"
  shows "keys_ok (snd (compileTemplate E t a))"
  unfolding keys_ok_def
proof (intro allI impI)
  fix k b
  let ?t' = "snd (compileTemplate E t a)"
  assume kb: "templates ?t' k = Some b"
  have "b < length (store t) \<and> Base (name (store t ! b)) = k"
  proof (cases "fst (compileTemplate E t a)")
    case None
    from compileTemplate_ok[OF None a]
    have reg: "templates ?t' = (templates t)(Base (name (store t ! a)) \<mapsto> a)" by simp
    show ?thesis
    proof (cases "k = Base (name (store t ! a))")
      case True
      with kb reg have "b = a" by simp
      with True a show ?thesis by simp
    next
      case False
      with kb reg have "templates t k = Some b" by simp
      with ok show ?thesis by (simp add: keys_ok_def)
    qed
  next
    case (Some err)
    with compileTemplate_fail[OF Some] kb have "templates t k = Some b" by simp
    with ok show ?thesis by (simp add: keys_ok_def)
  qed
  then show "b < length (store ?t') \<and> Base (name (store ?t' ! b)) = k"
    by (simp add: compileTemplate_frame compileTemplate_names)
qed

lemma keys_ok_registerAll:
  "keys_ok t \<Longrightarrow> keys_ok (snd (registerAll E mk t fs))"
proof (induction fs arbitrary: t)
  case Nil
  then show ?case by simp
next
  case (Cons f rest)
  let ?t1 = "t\<lparr>store := store t @ [mk f]\<rparr>"
  let ?a = "length (store t)"
  have "keys_ok ?t1"
    unfolding keys_ok_def
  proof (intro allI impI)
    fix k b
    assume "templates ?t1 k = Some b"
    with Cons.prems have "b < length (store t)" "Base (name (store t ! b)) = k"
      by (simp_all add: keys_ok_def)
    then show "b < length (store ?t1) \<and> Base (name (store ?t1 ! b)) = k"
      by (simp add: nth_append)
  qed
  then have ok2: "keys_ok (snd (compileTemplate E ?t1 ?a))"
    by (rule keys_ok_compileTemplate) simp
  show ?case
  proof (cases "fst (compileTemplate E ?t1 ?a)")
    case None
    then have "registerAll E mk t (f # rest) =
        registerAll E mk (snd (compileTemplate E ?t1 ?a)) rest"
      by (simp add: registerAll_Cons del: registerAll.simps)
    with Cons.IH[OF ok2] show ?thesis by simp
  next
    case (Some err)
    then have "snd (registerAll E mk t (f # rest)) = snd (compileTemplate E ?t1 ?a)"
      by (simp add: registerAll_Cons del: registerAll.simps)
    with ok2 show ?thesis by simp
  qed
qed

lemma keys_ok_Add: "keys_ok t \<Longrightarrow> keys_ok (snd (Add E t patterns))"
  by (simp add: Add_def keys_ok_registerAll split: sum.splits)

lemma keys_ok_AddWithLayout:
  "keys_ok t \<Longrightarrow> keys_ok (snd (AddWithLayout E t lay patterns))"
  by (simp add: AddWithLayout_def keys_ok_registerAll split: sum.splits)

lemma keys_ok_AddWithLayoutAndIncludes:
  "keys_ok t \<Longrightarrow> keys_ok (snd (AddWithLayoutAndIncludes E t lay inc patterns))"
  by (simp add: AddWithLayoutAndIncludes_def keys_ok_registerAll split: sum.splits)

lemma keys_ok_lookupTemplate:
  assumes "keys_ok t"
  shows "keys_ok (snd (lookupTemplate E t nm))"
proof (cases rule: lookupTemplate_cases[where E=E and t=t and nm=nm])
  case missing
  with assms show ?thesis by simp
next
  case (cached a)
  with assms show ?thesis by simp
next
  case (reload_failed a err)
  with assms have "a < length (store t)" by (simp add: keys_ok_def)
  with assms reload_failed show ?thesis by (simp add: keys_ok_compileTemplate)
next
  case (reloaded a)
  with assms have "a < length (store t)" by (simp add: keys_ok_def)
  with assms reloaded show ?thesis by (simp add: keys_ok_compileTemplate)
qed

lemma keys_ok_Render:
  assumes "keys_ok t"
  shows "keys_ok (snd (snd (Render E t nm data c)))"
proof -
  from assms have "keys_ok (snd (lookupTemplate E (emit (LogDebugCtx ''Render'') t) nm))"
    by (simp add: keys_ok_lookupTemplate keys_ok_updates)
  with Render_state[of E t nm data c] show ?thesis
    by (auto simp: keys_ok_updates)
qed

lemma keys_ok_RenderToHTMLBlob:
  assumes "keys_ok t"
  shows "keys_ok (snd (RenderToHTMLBlob E t c code nm data))"
  using RenderToHTMLBlob_state[of E t c code nm data] keys_ok_Render[OF assms, of E nm data c]
  by (auto simp: keys_ok_updates)

lemma live_keys_ok: "live E t \<Longrightarrow> keys_ok t"
proof (induction rule: live.induct)
  case (l_New fs ar fn)
  show ?case by (rule keys_ok_New)
next
  case (l_Add t patterns)
  then show ?case by (simp add: keys_ok_Add)
next
  case (l_AddWithLayout t lay patterns)
  then show ?case by (simp add: keys_ok_AddWithLayout)
next
  case (l_AddWithLayoutAndIncludes t lay inc patterns)
  then show ?case by (simp add: keys_ok_AddWithLayoutAndIncludes)
next
  case (l_Render t nm data c)
  then show ?case by (simp add: keys_ok_Render)
next
  case (l_RenderToHTMLBlob t c code nm data)
  then show ?case by (simp add: keys_ok_RenderToHTMLBlob)
next
  case (l_files_change t fs)
  then show ?case by (simp add: keys_ok_updates)
next
  case (l_WithFS t fs)
  then show ?case by (simp add: keys_ok_updates)
next
  case (l_WithAutoReload t enabled)
  then show ?case by (simp add: keys_ok_updates)
next
  case (l_WithFuncs t funcs)
  then show ?case by (simp add: keys_ok_updates)
qed

lemma reachable_live: "reachable E t \<Longrightarrow> live E t"
  by (induction rule: reachable.induct) (auto intro: live.intros)

subsection \<open>The registry after a registration\<close>

lemma bind_keys_dom: "dom (bind_keys m n fs) = dom m \<union> Base ` set fs"
  by (induction fs arbitrary: m n) auto

lemma bind_keys_nth:
  assumes "distinct (map Base fs)" and "i < length fs"
  shows "bind_keys m n fs (Base (fs ! i)) = Some (n + i)"
proof -
  from assms(2) have d: "fs = take i fs @ fs ! i # drop (Suc i) fs"
    by (rule id_take_nth_drop)
  from assms have "Base (fs ! i) \<notin> Base ` set (drop (Suc i) fs)"
  proof -
    have "distinct (map Base (take i fs @ fs ! i # drop (Suc i) fs))"
      using assms(1) d by simp
    then show ?thesis by (simp only: map_append list.map distinct_append distinct.simps
          set_map) simp
  qed
  from bind_keys_last[OF this, of m n "take i fs"] d assms(2)
  show ?thesis by simp
qed

lemma registerAll_first_fails:
  assumes mk: "\<And>f. mk f = \<lparr>layout = lay, name = f, includes' = inc, template = None\<rparr>"
    and fail: "ParseFS E (Base f) (templateFuncs t) (fsys t) (source_patterns (mk f)) = Inl e"
  shows "registerAll E mk t (f # post) =
     (Some (ParseFailed f e),
      t\<lparr>store := store t @ [mk f],
        trace := trace t @ [LogDebug ''register template'']\<rparr>)"
proof -
  let ?a = "length (store t)"
  let ?u = "t\<lparr>store := store t @ [mk f]\<rparr>"
  have v: "store ?u ! ?a = mk f" by simp
  have nm: "name (mk f) = f" by (simp add: mk)
  have same: "(mk f)\<lparr>template := None\<rparr> = mk f" by (simp add: mk)
  have c: "compileTemplate E ?u ?a =
      (Some (ParseFailed f e),
       t\<lparr>store := store t @ [mk f],
         trace := trace t @ [LogDebug ''register template'']\<rparr>)"
    by (rule compileTemplate_cases[where E=E and t="?u" and a="?a"])
       (simp_all add: v nm fail same)
  show ?thesis
    by (simp add: registerAll_Cons c del: registerAll.simps)
qed

lemma registerAll_append:
  assumes mk: "\<And>f. mk f = \<lparr>layout = lay, name = f, includes' = inc, template = None\<rparr>"
    and parse: "\<forall>g \<in> set pre. ParseFS E (Base g) (templateFuncs t) (fsys t)
                  (source_patterns (mk g)) = Inr (art g)"
  shows "registerAll E mk t (pre @ rest) =
     registerAll E mk
       (t\<lparr>store := store t @ map (\<lambda>g. (mk g)\<lparr>template := Some (art g)\<rparr>) pre,
          templates := bind_keys (templates t) (length (store t)) pre,
          trace := trace t @ replicate (length pre) (LogDebug ''register template'')\<rparr>) rest"
  using parse
proof (induction pre arbitrary: t)
  case Nil
  show ?case by simp
next
  case (Cons g pre)
  let ?a = "length (store t)"
  let ?u = "t\<lparr>store := store t @ [mk g]\<rparr>"
  let ?t2 = "t\<lparr>store := store t @ [(mk g)\<lparr>template := Some (art g)\<rparr>],
             templates := (templates t)(Base g \<mapsto> ?a),
             trace := trace t @ [LogDebug ''register template'']\<rparr>"
  have v: "store ?u ! ?a = mk g" by simp
  have nm: "name (mk g) = g" by (simp add: mk)
  from Cons.prems have p: "ParseFS E (Base g) (templateFuncs t) (fsys t)
                (source_patterns (mk g)) = Inr (art g)" by simp
  have c: "compileTemplate E ?u ?a = (None, ?t2)"
    by (rule compileTemplate_cases[where E=E and t="?u" and a="?a"])
       (simp_all add: v nm p)
  have step: "registerAll E mk t ((g # pre) @ rest) = registerAll E mk ?t2 (pre @ rest)"
    by (simp add: registerAll_Cons c del: registerAll.simps)
  from Cons.prems have "\<forall>h \<in> set pre. ParseFS E (Base h) (templateFuncs ?t2) (fsys ?t2)
                (source_patterns (mk h)) = Inr (art h)" by simp
  from Cons.IH[OF this] have "registerAll E mk ?t2 (pre @ rest) =
     registerAll E mk
       (?t2\<lparr>store := store ?t2 @ map (\<lambda>g. (mk g)\<lparr>template := Some (art g)\<rparr>) pre,
          templates := bind_keys (templates ?t2) (length (store ?t2)) pre,
          trace := trace ?t2 @ replicate (length pre) (LogDebug ''register template'')\<rparr>)
       rest" .
  also have "?t2\<lparr>store := store ?t2 @ map (\<lambda>g. (mk g)\<lparr>template := Some (art g)\<rparr>) pre,
          templates := bind_keys (templates ?t2) (length (store ?t2)) pre,
          trace := trace ?t2 @ replicate (length pre) (LogDebug ''register template'')\<rparr> =
      t\<lparr>store := store t @ map (\<lambda>g. (mk g)\<lparr>template := Some (art g)\<rparr>) (g # pre),
        templates := bind_keys (templates t) (length (store t)) (g # pre),
        trace := trace t @ replicate (length (g # pre)) (LogDebug ''register template'')\<rparr>"
    by simp
  finally show ?case by (simp only: step)
qed

lemma registerAll_failure:
  assumes mk: "\<And>f. mk f = \<lparr>layout = lay, name = f, includes' = inc, template = None\<rparr>"
    and parse: "\<forall>g \<in> set pre. ParseFS E (Base g) (templateFuncs t) (fsys t)
                  (source_patterns (mk g)) = Inr (art g)"
    and fail: "ParseFS E (Base f) (templateFuncs t) (fsys t) (source_patterns (mk f)) = Inl e"
  shows "registerAll E mk t (pre @ f # post) =
     (Some (ParseFailed f e),
      t\<lparr>store := store t @ map (\<lambda>g. (mk g)\<lparr>template := Some (art g)\<rparr>) pre @ [mk f],
        templates := bind_keys (templates t) (length (store t)) pre,
        trace := trace t @ replicate (Suc (length pre)) (LogDebug ''register template'')\<rparr>)"
proof -
  let ?t1 = "t\<lparr>store := store t @ map (\<lambda>g. (mk g)\<lparr>template := Some (art g)\<rparr>) pre,
        templates := bind_keys (templates t) (length (store t)) pre,
        trace := trace t @ replicate (length pre) (LogDebug ''register template'')\<rparr>"
  have f1: "ParseFS E (Base f) (templateFuncs ?t1) (fsys ?t1) (source_patterns (mk f)) = Inl e"
    using fail by simp
  have "registerAll E mk t (pre @ f # post) = registerAll E mk ?t1 (f # post)"
    by (rule registerAll_append[OF mk parse])
  also have "\<dots> = (Some (ParseFailed f e),
      ?t1\<lparr>store := store ?t1 @ [mk f],
        trace := trace ?t1 @ [LogDebug ''register template'']\<rparr>)"
    by (rule registerAll_first_fails[OF mk f1])
  also have "?t1\<lparr>store := store ?t1 @ [mk f],
        trace := trace ?t1 @ [LogDebug ''register template'']\<rparr> =
      t\<lparr>store := store t @ map (\<lambda>g. (mk g)\<lparr>template := Some (art g)\<rparr>) pre @ [mk f],
        templates := bind_keys (templates t) (length (store t)) pre,
        trace := trace t @ replicate (Suc (length pre)) (LogDebug ''register template'')\<rparr>"
    by (simp add: replicate_append_same)
  finally show ?thesis .
qed

lemma Add_failure:
  assumes "readFileNames E (fsys t) ps = Inr (pre @ f # post)"
    and "\<forall>g \<in> set pre. ParseFS E (Base g) (templateFuncs t) (fsys t) [g] = Inr (art g)"
    and "ParseFS E (Base f) (templateFuncs t) (fsys t) [f] = Inl e"
  shows "Add E t ps =
     (Some (ParseFailed f e),
      t\<lparr>store := store t @
           map (\<lambda>g. \<lparr>layout = [], name = g, includes' = [], template = Some (art g)\<rparr>) pre @
           [\<lparr>layout = [], name = f, includes' = [], template = None\<rparr>],
        templates := bind_keys (templates t) (length (store t)) pre,
        trace := trace t @ replicate (Suc (length pre)) (LogDebug ''register template'')\<rparr>)"
proof -
  let ?mk = "\<lambda>f. \<lparr>layout = [], name = f, includes' = [], template = None :: 'c option\<rparr>"
  have p: "\<forall>g \<in> set pre. ParseFS E (Base g) (templateFuncs t) (fsys t)
                  (source_patterns (?mk g)) = Inr (art g)"
    using assms(2) by (simp add: source_patterns_def)
  have q: "ParseFS E (Base f) (templateFuncs t) (fsys t) (source_patterns (?mk f)) = Inl e"
    using assms(3) by (simp add: source_patterns_def)
  from registerAll_failure[of ?mk "[]" "[]", OF _ p q, of post] assms(1)
  show ?thesis by (simp add: Add_def)
qed

lemma AddWithLayout_failure:
  assumes "readFileNames E (fsys t) ps = Inr (pre @ f # post)"
    and "\<forall>g \<in> set pre. ParseFS E (Base g) (templateFuncs t) (fsys t)
           ((if lay = [] then [] else [lay]) @ [g]) = Inr (art g)"
    and "ParseFS E (Base f) (templateFuncs t) (fsys t)
           ((if lay = [] then [] else [lay]) @ [f]) = Inl e"
  shows "AddWithLayout E t lay ps =
     (Some (ParseFailed f e),
      t\<lparr>store := store t @
           map (\<lambda>g. \<lparr>layout = lay, name = g, includes' = [], template = Some (art g)\<rparr>) pre @
           [\<lparr>layout = lay, name = f, includes' = [], template = None\<rparr>],
        templates := bind_keys (templates t) (length (store t)) pre,
        trace := trace t @ replicate (Suc (length pre)) (LogDebug ''register template'')\<rparr>)"
proof -
  let ?mk = "\<lambda>f. \<lparr>layout = lay, name = f, includes' = [], template = None :: 'c option\<rparr>"
  have p: "\<forall>g \<in> set pre. ParseFS E (Base g) (templateFuncs t) (fsys t)
                  (source_patterns (?mk g)) = Inr (art g)"
    using assms(2) by (cases "lay = []") (simp_all add: source_patterns_def)
  have q: "ParseFS E (Base f) (templateFuncs t) (fsys t) (source_patterns (?mk f)) = Inl e"
    using assms(3) by (cases "lay = []") (simp_all add: source_patterns_def)
  from registerAll_failure[of ?mk lay "[]", OF _ p q, of post] assms(1)
  show ?thesis by (simp add: AddWithLayout_def)
qed

lemma bind_keys_facts:
  "dom (bind_keys m n fs) = dom m \<union> Base ` set fs \<and>
   (\<forall>k. k \<notin> Base ` set fs \<longrightarrow> bind_keys m n fs k = m k) \<and>
   (\<forall>p1 g p2. fs = p1 @ g # p2 \<and> Base g \<notin> Base ` set p2 \<longrightarrow>
      bind_keys m n fs (Base g) = Some (n + length p1)) \<and>
   (distinct (map Base fs) \<longrightarrow>
      (\<forall>i < length fs. bind_keys m n fs (Base (fs ! i)) = Some (n + i)))"
proof (intro conjI allI impI)
  show "dom (bind_keys m n fs) = dom m \<union> Base ` set fs" by (rule bind_keys_dom)
next
  fix k assume "k \<notin> Base ` set fs"
  then show "bind_keys m n fs k = m k" by (rule bind_keys_other)
next
  fix p1 g p2
  assume h: "fs = p1 @ g # p2 \<and> Base g \<notin> Base ` set p2"
  then have "Base g \<notin> Base ` set p2" by simp
  from bind_keys_last[OF this, of m n p1] h
  show "bind_keys m n fs (Base g) = Some (n + length p1)" by simp
next
  fix i
  assume "distinct (map Base fs)" "i < length fs"
  then show "bind_keys m n fs (Base (fs ! i)) = Some (n + i)" by (rule bind_keys_nth)
qed

subsection \<open>Finding a view by its key\<close>

lemma lookupTemplate_found_key:
  "fst (lookupTemplate E t nm) = Inr a \<Longrightarrow> templates t nm = Some a"
  by (cases rule: lookupTemplate_cases[where E=E and t=t and nm=nm]) simp_all

lemma lookupTemplate_finds:
  assumes "templates t nm = Some a"
    and "autoReload t \<longrightarrow>
          (\<exists>tp. ParseFS E (Base (name (store t ! a))) (templateFuncs t) (fsys t)
                   (source_patterns (store t ! a)) = Inr tp)"
  shows "fst (lookupTemplate E t nm) = Inr a"
proof (cases "autoReload t")
  case False
  with assms(1) show ?thesis by (simp add: lookupTemplate_cached)
next
  case True
  with assms(2) obtain tp where
    p: "ParseFS E (Base (name (store t ! a))) (templateFuncs t) (fsys t)
                   (source_patterns (store t ! a)) = Inr tp" by blast
  have "fst (compileTemplate E t a) = None"
    by (rule compileTemplate_cases[where E=E and t=t and a=a]) (simp_all add: p)
  with assms(1) True show ?thesis by (simp add: lookupTemplate_reload)
qed

section \<open>The claims\<close>

subsection \<open>C1: rendering a name that is not registered\<close>

text \<open>
  C1, as stated, fails: \<open>Render\<close> does not return the not-found error. It returns what
  the context's \<open>NoContent\<close> returns, which is nil when the response is written
  successfully.
\<close>

theorem Render_unregistered_returns_nil:
  "fst (Render example_engine (New example_files False ()) ''missing.html'' () ctx_ok) =
     Returns None"
  by (simp add: Render_def lookupTemplate_def emit_def New_def ctx_ok_def)

text \<open>
  C1 (amended): for a name that is not in the registry, \<open>lookupTemplate\<close> gives the
  not-found error; \<open>Render\<close> logs that error, writes a no-content response with status
  500 through the context, and returns the result of that response write. It does not
  panic, writes nothing to \<open>w\<close> and leaves the registry and the views as they were.
\<close>

theorem Render_unregistered:
  assumes "templates t nm = None"
  shows "lookupTemplate E t nm = (Inl (NotFound nm), t) \<and>
         Render E t nm data c =
           (Returns (NoContent c 500), [],
            t\<lparr>trace := trace t @
               [LogDebugCtx ''Render'',
                LogErrorCtx ''failed to load template'' (NotFound nm),
                NoContentSent 500]\<rparr>)"
  using assms by (simp add: Render_def lookupTemplate_def emit_def)

text \<open>
  The amended C1 on an empty registry and a context whose writes fail: the caller gets
  the error of the response write.
\<close>

theorem Render_unregistered_witness:
  "templates (New example_files False () :: (example_fs, unit, string \<times> string list) ViewRenderer)
     ''missing.html'' = None \<and>
   fst (Render example_engine (New example_files False ()) ''missing.html'' () ctx_closed) =
     Returns (Some (External ''connection closed'')) \<and>
   fst (snd (Render example_engine (New example_files False ()) ''missing.html'' () ctx_closed)) = []"
proof -
  have h: "templates (New example_files False () :: (example_fs, unit, string \<times> string list) ViewRenderer)
     ''missing.html'' = None"
    by (simp add: New_def)
  from Render_unregistered[OF h, of example_engine "()" ctx_closed] h
  show ?thesis by (simp add: ctx_closed_def)
qed

subsection \<open>C2: a recompilation that fails during a render\<close>

text \<open>
  C2, as stated, fails: when the recompilation in reload mode fails, \<open>lookupTemplate\<close>
  returns the compile error, but \<open>Render\<close> does not: it returns what the context's
  \<open>NoContent\<close> returns, here nil. The page \<open>pages/index.html\<close> was registered and
  then stopped parsing.
\<close>

theorem Render_reload_failure_returns_nil:
  "fst (lookupTemplate example_engine (reload_renderer\<lparr>fsys := broken_files\<rparr>) ''index.html'') =
     Inl (ParseFailed ''pages/index.html'' (External ''syntax error'')) \<and>
   fst (Render example_engine (reload_renderer\<lparr>fsys := broken_files\<rparr>) ''index.html'' () ctx_ok) =
     Returns None"
  by (simp add: reload_renderer_eq Render_def lookupTemplate_def compileTemplate_def emit_def
      Let_def example_Base example_parse_pages ctx_ok_def)

text \<open>
  C2 (amended): for a registered view, when \<open>autoReload\<close> is enabled and the
  recompilation fails, \<open>lookupTemplate\<close> returns the compile error (the parse error
  wrapped with the page name); \<open>Render\<close> logs it, writes a no-content response with
  status 500 and returns the result of that response write. Nothing is executed or
  written to \<open>w\<close>: there is no fall back to the previously compiled artifact.
\<close>

theorem Render_reload_failure:
  assumes "autoReload t" and "templates t nm = Some a"
    and "ParseFS E (Base (name (store t ! a))) (templateFuncs t) (fsys t)
           (source_patterns (store t ! a)) = Inl e"
  shows "fst (lookupTemplate E t nm) = Inl (ParseFailed (name (store t ! a)) e) \<and>
         fst (Render E t nm data c) = Returns (NoContent c 500) \<and>
         fst (snd (Render E t nm data c)) = [] \<and>
         trace (snd (snd (Render E t nm data c))) =
           trace t @ [LogDebugCtx ''Render'', LogDebug ''register template'',
                      LogErrorCtx ''failed to load template''
                        (ParseFailed (name (store t ! a)) e),
                      NoContentSent 500]"
proof -
  have c1: "compileTemplate E t a =
      (Some (ParseFailed (name (store t ! a)) e),
       t\<lparr>store := (store t)[a := (store t ! a)\<lparr>template := None\<rparr>],
         trace := trace t @ [LogDebug ''register template'']\<rparr>)"
    by (rule compileTemplate_cases[where E=E and t=t and a=a]) (simp_all add: assms)
  let ?t0 = "emit (LogDebugCtx ''Render'') t"
  have c2: "compileTemplate E ?t0 a =
      (Some (ParseFailed (name (store t ! a)) e),
       ?t0\<lparr>store := (store t)[a := (store t ! a)\<lparr>template := None\<rparr>],
         trace := trace ?t0 @ [LogDebug ''register template'']\<rparr>)"
    by (rule compileTemplate_cases[where E=E and t="?t0" and a=a])
       (simp_all add: assms emit_simps)
  have l1: "fst (lookupTemplate E t nm) = Inl (ParseFailed (name (store t ! a)) e)"
    using assms c1 by (simp add: lookupTemplate_reload)
  have l2: "lookupTemplate E ?t0 nm =
      (Inl (ParseFailed (name (store t ! a)) e),
       ?t0\<lparr>store := (store t)[a := (store t ! a)\<lparr>template := None\<rparr>],
         trace := trace ?t0 @ [LogDebug ''register template'']\<rparr>)"
    using assms c2 by (simp add: lookupTemplate_reload emit_simps)
  have "Render E t nm data c =
      (Returns (NoContent c 500), [],
       ?t0\<lparr>store := (store t)[a := (store t ! a)\<lparr>template := None\<rparr>],
         trace := trace ?t0 @ [LogDebug ''register template'',
           LogErrorCtx ''failed to load template'' (ParseFailed (name (store t ! a)) e),
           NoContentSent 500]\<rparr>)"
    by (rule Render_cases[where E=E and t=t and nm=nm and data=data and c=c])
       (simp_all add: l2)
  with l1 show ?thesis by (simp add: emit_simps)
qed

text \<open>
  The amended C2 on the reloading example renderer, after \<open>pages/index.html\<close> stopped
  parsing, with a context whose writes fail: the caller gets the error of the response
  write, not the compile error.
\<close>

theorem Render_reload_failure_witness:
  "autoReload (reload_renderer\<lparr>fsys := broken_files\<rparr>) \<and>
   templates (reload_renderer\<lparr>fsys := broken_files\<rparr>) ''index.html'' = Some 1 \<and>
   fst (Render example_engine (reload_renderer\<lparr>fsys := broken_files\<rparr>) ''index.html'' ()
          ctx_closed) = Returns (Some (External ''connection closed'')) \<and>
   fst (snd (Render example_engine (reload_renderer\<lparr>fsys := broken_files\<rparr>) ''index.html'' ()
          ctx_closed)) = []"
proof -
  let ?t = "reload_renderer\<lparr>fsys := broken_files\<rparr>"
  have h1: "autoReload ?t" by (simp add: reload_renderer_eq)
  have h2: "templates ?t ''index.html'' = Some 1" by (simp add: reload_renderer_eq)
  have h3: "ParseFS example_engine (Base (name (store ?t ! 1))) (templateFuncs ?t) (fsys ?t)
           (source_patterns (store ?t ! 1)) = Inl (External ''syntax error'')"
    by (simp add: reload_renderer_eq source_patterns_def example_Base example_parse_pages)
  from Render_reload_failure[OF h1 h2 h3, of "()" ctx_closed] h1 h2
  show ?thesis by (simp add: ctx_closed_def)
qed

subsection \<open>C3: what a render sees after a compile\<close>

text \<open>
  C3 says that after any \<open>compileTemplate\<close> call, also one that fails, a view holds
  the previous or the new fully compiled artifact, or is absent, and that a later
  \<open>Render\<close> sees one of the two artifacts. The code breaks this. \<open>compileTemplate\<close>
  writes the result of the parse into the view before it tests the error, and a failed
  parse returns nil. The page \<open>pages/index.html\<close> is registered in reload mode with a
  compiled artifact; it stops parsing and is rendered, so the recompilation fails.
  After that the key \<open>index.html\<close> is still in the registry and its view holds nil:
  neither the previous artifact nor a new one. When reload is then switched off with
  \<open>WithAutoReload(false)(r)\<close>, the next \<open>Render\<close> of the page dereferences the nil
  artifact and panics.
\<close>

theorem nil_artifact_after_failed_reload:
  "template (store reload_renderer ! 1) = Some (''index.html'', [''pages/index.html'']) \<and>
   fst (compileTemplate example_engine (reload_renderer\<lparr>fsys := broken_files\<rparr>) 1) =
     Some (ParseFailed ''pages/index.html'' (External ''syntax error'')) \<and>
   template (store (snd (compileTemplate example_engine
     (reload_renderer\<lparr>fsys := broken_files\<rparr>) 1)) ! 1) = None \<and>
   templates after_failed_reload ''index.html'' = Some 1 \<and>
   template (store after_failed_reload ! 1) = None \<and>
   fst (Render example_engine (WithAutoReload False after_failed_reload) ''index.html'' ()
          ctx_ok) = Panics"
proof -
  have a: "after_failed_reload =
     \<lparr>fsys = broken_files, autoReload = True,
      templates = [''about.html'' \<mapsto> 0, ''index.html'' \<mapsto> 1],
      templateFuncs = (),
      store = [\<lparr>layout = [], name = ''pages/about.html'', includes' = [],
                 template = Some (''about.html'', [''pages/about.html''])\<rparr>,
               \<lparr>layout = [], name = ''pages/index.html'', includes' = [],
                 template = None\<rparr>],
      trace = [LogDebug ''register template'', LogDebug ''register template'',
               LogDebugCtx ''Render'', LogDebug ''register template'',
               LogErrorCtx ''failed to load template''
                 (ParseFailed ''pages/index.html'' (External ''syntax error'')),
               NoContentSent 500]\<rparr>"
    by (simp add: after_failed_reload_def reload_renderer_eq Render_def lookupTemplate_def
        compileTemplate_def emit_def Let_def example_Base example_parse_pages)
  have c: "fst (compileTemplate example_engine (reload_renderer\<lparr>fsys := broken_files\<rparr>) 1) =
     Some (ParseFailed ''pages/index.html'' (External ''syntax error'')) \<and>
   template (store (snd (compileTemplate example_engine
     (reload_renderer\<lparr>fsys := broken_files\<rparr>) 1)) ! 1) = None"
    by (simp add: reload_renderer_eq compileTemplate_def emit_def Let_def example_Base
        example_parse_pages)
  have n: "\<not> autoReload (WithAutoReload False after_failed_reload)"
    by (simp add: WithAutoReload_def)
  have p: "fst (Render example_engine (WithAutoReload False after_failed_reload) ''index.html'' ()
          ctx_ok) = Panics"
    by (simp add: Render_no_reload[OF n]) (simp add: WithAutoReload_def a)
  have s: "template (store reload_renderer ! 1) = Some (''index.html'', [''pages/index.html''])"
    by (simp add: reload_renderer_eq)
  from s c p show ?thesis by (simp add: a)
qed

subsection \<open>C4: when \<open>readFileNames\<close> reports that a pattern matches no files\<close>




subsection \<open>C5: what \<open>compileTemplate\<close> parses and where it stores the view\<close>

text \<open>
  C5: for the view at address \<open>a\<close>, \<open>compileTemplate\<close> hands the engine the pattern
  list made of the layout pattern if it is not empty, then the includes pattern if it
  is not empty, then the page pattern, asks for one artifact named after the base name
  of the page file and bound to the shared functions of the renderer, and, when the
  parse succeeds, puts the artifact into the view and stores the view in the registry
  under that base name (a new key or an overwritten one). When the parse fails it
  returns the parse error wrapped with the page name and the registry is unchanged.
\<close>

theorem compileTemplate_builds_and_stores:
  assumes "a < length (store t)"
  shows
    "(\<forall>tp. ParseFS E (Base (name (store t ! a))) (templateFuncs t) (fsys t)
             ((if layout (store t ! a) = [] then [] else [layout (store t ! a)]) @
              (if includes' (store t ! a) = [] then [] else [includes' (store t ! a)]) @
              [name (store t ! a)]) = Inr tp \<longrightarrow>
        fst (compileTemplate E t a) = None \<and>
        store (snd (compileTemplate E t a)) ! a = (store t ! a)\<lparr>template := Some tp\<rparr> \<and>
        templates (snd (compileTemplate E t a)) (Base (name (store t ! a))) = Some a \<and>
        (\<forall>k. k \<noteq> Base (name (store t ! a)) \<longrightarrow>
           templates (snd (compileTemplate E t a)) k = templates t k)) \<and>
     (\<forall>e. ParseFS E (Base (name (store t ! a))) (templateFuncs t) (fsys t)
            ((if layout (store t ! a) = [] then [] else [layout (store t ! a)]) @
             (if includes' (store t ! a) = [] then [] else [includes' (store t ! a)]) @
             [name (store t ! a)]) = Inl e \<longrightarrow>
        fst (compileTemplate E t a) = Some (ParseFailed (name (store t ! a)) e) \<and>
        templates (snd (compileTemplate E t a)) = templates t)"
proof -
  have p: "(if layout (store t ! a) = [] then [] else [layout (store t ! a)]) @
           (if includes' (store t ! a) = [] then [] else [includes' (store t ! a)]) @
           [name (store t ! a)] = source_patterns (store t ! a)"
    by (simp only: source_patterns_def)
  show ?thesis
    unfolding p
    by (rule compileTemplate_cases[where E=E and t=t and a=a]) (simp_all add: assms)
qed

text \<open>
  C5 on the example file collection: a page with a layout is parsed from the layout
  file first and the page file last, into an artifact named \<open>index.html\<close>, and is
  stored under the key \<open>index.html\<close>.
\<close>

theorem compileTemplate_builds_and_stores_witness:
  "store (snd (compileTemplate example_engine
      ((New example_files False ())
         \<lparr>store := [\<lparr>layout = ''layout.html'', name = ''pages/index.html'', includes' = [],
                      template = None\<rparr>]\<rparr>) 0)) ! 0 =
     \<lparr>layout = ''layout.html'', name = ''pages/index.html'', includes' = [],
      template = Some (''index.html'', [''layout.html'', ''pages/index.html''])\<rparr> \<and>
   templates (snd (compileTemplate example_engine
      ((New example_files False ())
         \<lparr>store := [\<lparr>layout = ''layout.html'', name = ''pages/index.html'', includes' = [],
                      template = None\<rparr>]\<rparr>) 0)) ''index.html'' = Some 0"
proof -
  let ?t = "(New example_files False ())
         \<lparr>store := [\<lparr>layout = ''layout.html'', name = ''pages/index.html'', includes' = [],
                      template = None :: (string \<times> string list) option\<rparr>]\<rparr>"
  have h: "0 < length (store ?t)" by simp
  have p: "ParseFS example_engine ''index.html'' () example_files
             [''layout.html'', ''pages/index.html''] =
           Inr (''index.html'', [''layout.html'', ''pages/index.html''])"
    by (simp add: example_engine_def example_ParseFS_def example_Glob_def example_files_def)
  from compileTemplate_builds_and_stores[OF h, of example_engine] p
  show ?thesis by (simp add: New_def example_Base)
qed

subsection \<open>C6: the entry point of a render\<close>



subsection \<open>C7: without reload the cached artifact is what is rendered\<close>

text \<open>
  C7: when \<open>autoReload\<close> is disabled, \<open>lookupTemplate\<close> returns the registered view
  and leaves the renderer unchanged; \<open>Render\<close> changes neither the registry nor any
  view, and does not depend on how the engine globs or parses. So a second render of
  the same name with the same data, after the content of the file collection changed,
  returns the same result and writes the same output as the first.
\<close>

theorem Render_without_reload_is_stable:
  assumes "\<not> autoReload t"
  shows "lookupTemplate E t nm =
           (case templates t nm of None \<Rightarrow> Inl (NotFound nm) | Some a \<Rightarrow> Inr a, t) \<and>
         store (snd (snd (Render E t nm data c))) = store t \<and>
         templates (snd (snd (Render E t nm data c))) = templates t \<and>
         Render (E\<lparr>Glob := g, ParseFS := p\<rparr>) t nm data c = Render E t nm data c \<and>
         fst (Render E ((snd (snd (Render E t nm data c)))\<lparr>fsys := fs\<rparr>) nm data c) =
           fst (Render E t nm data c) \<and>
         fst (snd (Render E ((snd (snd (Render E t nm data c)))\<lparr>fsys := fs\<rparr>) nm data c)) =
           fst (snd (Render E t nm data c))"
proof -
  let ?t1 = "snd (snd (Render E t nm data c))"
  have l: "lookupTemplate E t nm =
           (case templates t nm of None \<Rightarrow> Inl (NotFound nm) | Some a \<Rightarrow> Inr a, t)"
    using assms by (simp add: lookupTemplate_def split: option.splits)
  have fr: "store ?t1 = store t" "templates ?t1 = templates t" "\<not> autoReload ?t1"
    using assms by (simp_all add: Render_no_reload split: option.splits)
  have e: "Render (E\<lparr>Glob := g, ParseFS := p\<rparr>) t nm data c = Render E t nm data c"
    using assms by (simp add: Render_no_reload split: option.splits)
  have nr: "\<not> autoReload (?t1\<lparr>fsys := fs\<rparr>)" using fr by simp
  have r: "fst (Render E (?t1\<lparr>fsys := fs\<rparr>) nm data c) = fst (Render E t nm data c)"
    "fst (snd (Render E (?t1\<lparr>fsys := fs\<rparr>) nm data c)) = fst (snd (Render E t nm data c))"
    by (rule Render_no_reload_cong[OF assms nr]; simp add: fr)+
  from l fr e r show ?thesis by simp
qed

text \<open>
  C7 on the example renderer that compiles once: \<open>pages/index.html\<close> stops parsing
  between two renders, and the second render writes what the first wrote.
\<close>

theorem Render_without_reload_is_stable_witness:
  "\<not> autoReload cached_renderer \<and>
   fst (snd (Render example_engine cached_renderer ''index.html'' () ctx_ok)) =
     ''index.html index.html'' \<and>
   fst (snd (Render example_engine
      ((snd (snd (Render example_engine cached_renderer ''index.html'' () ctx_ok)))
         \<lparr>fsys := broken_files\<rparr>) ''index.html'' () ctx_ok)) = ''index.html index.html''"
proof -
  have h: "\<not> autoReload cached_renderer" by (simp add: cached_renderer_eq)
  have o: "fst (snd (Render example_engine cached_renderer ''index.html'' () ctx_ok)) =
     ''index.html index.html''"
    by (simp add: Render_no_reload[OF h])
       (simp add: cached_renderer_eq example_Base example_engine_simps example_Execute_def)
  from Render_without_reload_is_stable[OF h, of example_engine "''index.html''" "()" ctx_ok
      _ _ broken_files] h o
  show ?thesis by simp
qed

subsection \<open>C8: \<open>RenderToHTMLBlob\<close> writes the response only after a successful render\<close>

text \<open>
  C8: \<open>RenderToHTMLBlob\<close> renders into a buffer of its own. When \<open>Render\<close> returns
  an error, that error is returned and the renderer is left as \<open>Render\<close> left it:
  \<open>RenderToHTMLBlob\<close> itself writes no response. When \<open>Render\<close> returns no error, the
  buffer is written as the response body with the given status code, once, and the
  result of that write is returned. \<open>Render\<close> itself never writes an HTML body
  response, so the body is written exactly once.
\<close>

theorem RenderToHTMLBlob_writes_after_success:
  "(\<forall>err. fst (Render E t nm data c) = Returns (Some err) \<longrightarrow>
      RenderToHTMLBlob E t c code nm data =
        (Returns (Some err), snd (snd (Render E t nm data c)))) \<and>
   (fst (Render E t nm data c) = Returns None \<longrightarrow>
      RenderToHTMLBlob E t c code nm data =
        (Returns (HTMLBlob c code (fst (snd (Render E t nm data c)))),
         (snd (snd (Render E t nm data c)))
           \<lparr>trace := trace (snd (snd (Render E t nm data c))) @
              [HTMLBlobSent code (fst (snd (Render E t nm data c)))]\<rparr>)) \<and>
   (\<exists>es. trace (snd (snd (Render E t nm data c))) = trace t @ es \<and>
      (\<forall>code' b. HTMLBlobSent code' b \<notin> set es))"
proof (intro conjI allI impI)
  fix err
  assume "fst (Render E t nm data c) = Returns (Some err)"
  then show "RenderToHTMLBlob E t c code nm data =
        (Returns (Some err), snd (snd (Render E t nm data c)))"
    by (cases "Render E t nm data c") (simp add: RenderToHTMLBlob_def)
next
  assume "fst (Render E t nm data c) = Returns None"
  then show "RenderToHTMLBlob E t c code nm data =
        (Returns (HTMLBlob c code (fst (snd (Render E t nm data c)))),
         (snd (snd (Render E t nm data c)))
           \<lparr>trace := trace (snd (snd (Render E t nm data c))) @
              [HTMLBlobSent code (fst (snd (Render E t nm data c)))]\<rparr>)"
    by (cases "Render E t nm data c") (simp add: RenderToHTMLBlob_def emit_def)
next
  show "\<exists>es. trace (snd (snd (Render E t nm data c))) = trace t @ es \<and>
      (\<forall>code' b. HTMLBlobSent code' b \<notin> set es)"
    by (rule Render_trace)
qed

text \<open>
  C8 on the example renderer that compiles once: the registered page is rendered and
  its output is written once as the body, with the status code of the call; for a name
  that is not registered, on a context whose writes fail, the error \<open>Render\<close> returns
  is returned and no body is written.
\<close>

theorem RenderToHTMLBlob_writes_after_success_witness:
  "fst (Render example_engine cached_renderer ''index.html'' () ctx_ok) = Returns None \<and>
   fst (RenderToHTMLBlob example_engine cached_renderer ctx_ok 200 ''index.html'' ()) =
     Returns None \<and>
   trace (snd (RenderToHTMLBlob example_engine cached_renderer ctx_ok 200 ''index.html'' ())) =
     trace cached_renderer @
       [LogDebugCtx ''Render'', LogDebugCtx ''Render complete'',
        HTMLBlobSent 200 ''index.html index.html''] \<and>
   fst (Render example_engine cached_renderer ''missing.html'' () ctx_closed) =
     Returns (Some (External ''connection closed'')) \<and>
   fst (RenderToHTMLBlob example_engine cached_renderer ctx_closed 200 ''missing.html'' ()) =
     Returns (Some (External ''connection closed'')) \<and>
   trace (snd (RenderToHTMLBlob example_engine cached_renderer ctx_closed 200 ''missing.html'' ())) =
     trace cached_renderer @
       [LogDebugCtx ''Render'',
        LogErrorCtx ''failed to load template'' (NotFound ''missing.html''),
        NoContentSent 500]"
proof -
  have h: "\<not> autoReload cached_renderer" by (simp add: cached_renderer_eq)
  have m: "Render example_engine cached_renderer ''missing.html'' () ctx_closed =
      (Returns (Some (External ''connection closed'')), [],
       cached_renderer\<lparr>trace := trace cached_renderer @
          [LogDebugCtx ''Render'',
           LogErrorCtx ''failed to load template'' (NotFound ''missing.html''),
           NoContentSent 500]\<rparr>)"
    by (simp add: Render_no_reload[OF h])
       (simp add: cached_renderer_eq ctx_closed_def)
  have r: "Render example_engine cached_renderer ''index.html'' () ctx_ok =
      (Returns None, ''index.html index.html'',
       cached_renderer\<lparr>trace := trace cached_renderer @
          [LogDebugCtx ''Render'', LogDebugCtx ''Render complete'']\<rparr>)"
    by (simp add: Render_no_reload[OF h])
       (simp add: cached_renderer_eq example_Base example_engine_simps example_Execute_def)
  from RenderToHTMLBlob_writes_after_success[of example_engine cached_renderer
      "''index.html''" "()" ctx_ok 200] r
  have ok: "fst (RenderToHTMLBlob example_engine cached_renderer ctx_ok 200 ''index.html'' ()) =
     Returns None \<and>
   trace (snd (RenderToHTMLBlob example_engine cached_renderer ctx_ok 200 ''index.html'' ())) =
     trace cached_renderer @
       [LogDebugCtx ''Render'', LogDebugCtx ''Render complete'',
        HTMLBlobSent 200 ''index.html index.html'']"
    by (simp add: ctx_ok_def)
  from RenderToHTMLBlob_writes_after_success[of example_engine cached_renderer
      "''missing.html''" "()" ctx_closed 200] m
  have err: "RenderToHTMLBlob example_engine cached_renderer ctx_closed 200 ''missing.html'' () =
      (Returns (Some (External ''connection closed'')),
       cached_renderer\<lparr>trace := trace cached_renderer @
          [LogDebugCtx ''Render'',
           LogErrorCtx ''failed to load template'' (NotFound ''missing.html''),
           NoContentSent 500]\<rparr>)"
    by simp
  from ok r m err show ?thesis by simp
qed

subsection \<open>C9: one view per matched file\<close>

text \<open>
  C9, as stated, fails: \<open>Add\<close> does not leave exactly one registered view per matched
  file. The pattern \<open>*/x.html\<close> matches the two files \<open>a/x.html\<close> and \<open>b/x.html\<close>;
  \<open>Add\<close> returns no error, and the registry holds the single key \<open>x.html\<close>.
\<close>

theorem Add_same_base_name_one_entry:
  "readFileNames example_engine example_files [''*/x.html''] =
     Inr [''a/x.html'', ''b/x.html''] \<and>
   fst (Add example_engine
      (New example_files False () :: (example_fs, unit, string \<times> string list) ViewRenderer)
      [''*/x.html'']) = None \<and>
   dom (templates (snd (Add example_engine
      (New example_files False () :: (example_fs, unit, string \<times> string list) ViewRenderer)
      [''*/x.html'']))) = {''x.html''}"
proof -
  let ?t = "New example_files False () :: (example_fs, unit, string \<times> string list) ViewRenderer"
  have r: "readFileNames example_engine (fsys ?t) [''*/x.html''] =
      Inr [''a/x.html'', ''b/x.html'']"
    by (simp add: New_def readFileNames_def example_Glob_simps)
  have p: "\<forall>g \<in> set [''a/x.html'', ''b/x.html''].
      ParseFS example_engine (Base g) (templateFuncs ?t) (fsys ?t) [g] = Inr (Base g, [g])"
    by (simp add: New_def example_Base example_engine_simps example_ParseFS_def example_Glob_def
        example_files_def)
  note s = Add_success[OF r p]
  have "templates (snd (Add example_engine ?t [''*/x.html''])) =
      bind_keys (templates ?t) (length (store ?t)) [''a/x.html'', ''b/x.html'']"
    using s by simp
  then have "dom (templates (snd (Add example_engine ?t [''*/x.html'']))) =
      dom (templates ?t) \<union> Base ` set [''a/x.html'', ''b/x.html'']"
    by (simp only: bind_keys_dom)
  then have "dom (templates (snd (Add example_engine ?t [''*/x.html'']))) = {''x.html''}"
    by (simp add: example_Base New_def)
  moreover have "fst (Add example_engine ?t [''*/x.html'']) = None" by (simp add: s)
  moreover have "readFileNames example_engine example_files [''*/x.html''] =
     Inr [''a/x.html'', ''b/x.html'']"
    using r by (simp add: New_def)
  ultimately show ?thesis by simp
qed

text \<open>
  C9 (amended): \<open>Add\<close> resolves the patterns to the list of matched files (a file
  matched by several patterns is listed once per match); when the patterns do not
  resolve it registers nothing and returns the wrapped error. Otherwise it creates one
  view per entry of the list, in order, each with the file as page name, an empty
  layout and empty includes, compiles it and, if it compiles, stores it in the registry
  under the base name of its file, replacing a view already under that key; it stops
  at the first file that fails to compile and returns that error, with the files
  before it registered. So, when every file compiles, the keys of the registry are the
  old keys and the base names of the matched files, other keys keep their view, and
  each base name points to the view of the last matched file with that base name:
  there is exactly one registered view per matched file when the matched files have
  pairwise distinct base names. \<open>AddWithLayout\<close> behaves in the same way, with every
  view carrying the single layout pattern of the call.
\<close>

theorem Add_one_view_per_file:
  "(\<forall>err. readFileNames E (fsys t) ps = Inl err \<longrightarrow>
      Add E t ps = (Some (ReadNamesFailed err), t) \<and>
      AddWithLayout E t lay ps = (Some (ListFailed err), t)) \<and>
   (readFileNames E (fsys t) ps = Inr fs \<and>
    (\<forall>f \<in> set fs. ParseFS E (Base f) (templateFuncs t) (fsys t) [f] = Inr (art f)) \<longrightarrow>
      fst (Add E t ps) = None \<and>
      store (snd (Add E t ps)) =
        store t @
        map (\<lambda>f. \<lparr>layout = [], name = f, includes' = [], template = Some (art f)\<rparr>) fs \<and>
      dom (templates (snd (Add E t ps))) = dom (templates t) \<union> Base ` set fs \<and>
      (\<forall>k. k \<notin> Base ` set fs \<longrightarrow> templates (snd (Add E t ps)) k = templates t k) \<and>
      (\<forall>p1 g p2. fs = p1 @ g # p2 \<and> Base g \<notin> Base ` set p2 \<longrightarrow>
         templates (snd (Add E t ps)) (Base g) = Some (length (store t) + length p1)) \<and>
      (distinct (map Base fs) \<longrightarrow>
         (\<forall>i < length fs.
            templates (snd (Add E t ps)) (Base (fs ! i)) = Some (length (store t) + i)))) \<and>
   (readFileNames E (fsys t) ps = Inr (pre @ f # post) \<and>
    (\<forall>g \<in> set pre. ParseFS E (Base g) (templateFuncs t) (fsys t) [g] = Inr (art g)) \<and>
    ParseFS E (Base f) (templateFuncs t) (fsys t) [f] = Inl e \<longrightarrow>
      fst (Add E t ps) = Some (ParseFailed f e) \<and>
      store (snd (Add E t ps)) =
        store t @
        map (\<lambda>g. \<lparr>layout = [], name = g, includes' = [], template = Some (art g)\<rparr>) pre @
        [\<lparr>layout = [], name = f, includes' = [], template = None\<rparr>] \<and>
      dom (templates (snd (Add E t ps))) = dom (templates t) \<union> Base ` set pre \<and>
      templates (snd (Add E t ps)) = bind_keys (templates t) (length (store t)) pre) \<and>
   (readFileNames E (fsys t) ps = Inr fs \<and>
    (\<forall>f \<in> set fs. ParseFS E (Base f) (templateFuncs t) (fsys t)
        ((if lay = [] then [] else [lay]) @ [f]) = Inr (art' f)) \<longrightarrow>
      fst (AddWithLayout E t lay ps) = None \<and>
      store (snd (AddWithLayout E t lay ps)) =
        store t @
        map (\<lambda>f. \<lparr>layout = lay, name = f, includes' = [], template = Some (art' f)\<rparr>) fs \<and>
      dom (templates (snd (AddWithLayout E t lay ps))) = dom (templates t) \<union> Base ` set fs \<and>
      (\<forall>k. k \<notin> Base ` set fs \<longrightarrow>
         templates (snd (AddWithLayout E t lay ps)) k = templates t k) \<and>
      (\<forall>p1 g p2. fs = p1 @ g # p2 \<and> Base g \<notin> Base ` set p2 \<longrightarrow>
         templates (snd (AddWithLayout E t lay ps)) (Base g) =
           Some (length (store t) + length p1)) \<and>
      (distinct (map Base fs) \<longrightarrow>
         (\<forall>i < length fs.
            templates (snd (AddWithLayout E t lay ps)) (Base (fs ! i)) =
              Some (length (store t) + i)))) \<and>
   (readFileNames E (fsys t) ps = Inr (pre @ f # post) \<and>
    (\<forall>g \<in> set pre. ParseFS E (Base g) (templateFuncs t) (fsys t)
        ((if lay = [] then [] else [lay]) @ [g]) = Inr (art' g)) \<and>
    ParseFS E (Base f) (templateFuncs t) (fsys t)
        ((if lay = [] then [] else [lay]) @ [f]) = Inl e \<longrightarrow>
      fst (AddWithLayout E t lay ps) = Some (ParseFailed f e) \<and>
      store (snd (AddWithLayout E t lay ps)) =
        store t @
        map (\<lambda>g. \<lparr>layout = lay, name = g, includes' = [], template = Some (art' g)\<rparr>) pre @
        [\<lparr>layout = lay, name = f, includes' = [], template = None\<rparr>] \<and>
      dom (templates (snd (AddWithLayout E t lay ps))) = dom (templates t) \<union> Base ` set pre \<and>
      templates (snd (AddWithLayout E t lay ps)) =
        bind_keys (templates t) (length (store t)) pre)"
proof (intro conjI)
  show "\<forall>err. readFileNames E (fsys t) ps = Inl err \<longrightarrow>
      Add E t ps = (Some (ReadNamesFailed err), t) \<and>
      AddWithLayout E t lay ps = (Some (ListFailed err), t)"
    by (simp add: Add_def AddWithLayout_def)
next
  show "readFileNames E (fsys t) ps = Inr fs \<and>
    (\<forall>f \<in> set fs. ParseFS E (Base f) (templateFuncs t) (fsys t) [f] = Inr (art f)) \<longrightarrow>
      fst (Add E t ps) = None \<and>
      store (snd (Add E t ps)) =
        store t @
        map (\<lambda>f. \<lparr>layout = [], name = f, includes' = [], template = Some (art f)\<rparr>) fs \<and>
      dom (templates (snd (Add E t ps))) = dom (templates t) \<union> Base ` set fs \<and>
      (\<forall>k. k \<notin> Base ` set fs \<longrightarrow> templates (snd (Add E t ps)) k = templates t k) \<and>
      (\<forall>p1 g p2. fs = p1 @ g # p2 \<and> Base g \<notin> Base ` set p2 \<longrightarrow>
         templates (snd (Add E t ps)) (Base g) = Some (length (store t) + length p1)) \<and>
      (distinct (map Base fs) \<longrightarrow>
         (\<forall>i < length fs.
            templates (snd (Add E t ps)) (Base (fs ! i)) = Some (length (store t) + i)))"
  proof
    assume a: "readFileNames E (fsys t) ps = Inr fs \<and>
      (\<forall>f \<in> set fs. ParseFS E (Base f) (templateFuncs t) (fsys t) [f] = Inr (art f))"
    note s = Add_success[OF a[THEN conjunct1] a[THEN conjunct2]]
    have r: "templates (snd (Add E t ps)) = bind_keys (templates t) (length (store t)) fs"
      by (simp add: s)
    have "fst (Add E t ps) = None" by (simp add: s)
    moreover have "store (snd (Add E t ps)) =
        store t @
        map (\<lambda>f. \<lparr>layout = [], name = f, includes' = [], template = Some (art f)\<rparr>) fs"
      by (simp add: s)
    ultimately show "fst (Add E t ps) = None \<and>
      store (snd (Add E t ps)) =
        store t @
        map (\<lambda>f. \<lparr>layout = [], name = f, includes' = [], template = Some (art f)\<rparr>) fs \<and>
      dom (templates (snd (Add E t ps))) = dom (templates t) \<union> Base ` set fs \<and>
      (\<forall>k. k \<notin> Base ` set fs \<longrightarrow> templates (snd (Add E t ps)) k = templates t k) \<and>
      (\<forall>p1 g p2. fs = p1 @ g # p2 \<and> Base g \<notin> Base ` set p2 \<longrightarrow>
         templates (snd (Add E t ps)) (Base g) = Some (length (store t) + length p1)) \<and>
      (distinct (map Base fs) \<longrightarrow>
         (\<forall>i < length fs.
            templates (snd (Add E t ps)) (Base (fs ! i)) = Some (length (store t) + i)))"
      using bind_keys_facts[of "templates t" "length (store t)" fs]
      unfolding r by blast
  qed
next
  show "readFileNames E (fsys t) ps = Inr (pre @ f # post) \<and>
    (\<forall>g \<in> set pre. ParseFS E (Base g) (templateFuncs t) (fsys t) [g] = Inr (art g)) \<and>
    ParseFS E (Base f) (templateFuncs t) (fsys t) [f] = Inl e \<longrightarrow>
      fst (Add E t ps) = Some (ParseFailed f e) \<and>
      store (snd (Add E t ps)) =
        store t @
        map (\<lambda>g. \<lparr>layout = [], name = g, includes' = [], template = Some (art g)\<rparr>) pre @
        [\<lparr>layout = [], name = f, includes' = [], template = None\<rparr>] \<and>
      dom (templates (snd (Add E t ps))) = dom (templates t) \<union> Base ` set pre \<and>
      templates (snd (Add E t ps)) = bind_keys (templates t) (length (store t)) pre"
  proof
    assume a: "readFileNames E (fsys t) ps = Inr (pre @ f # post) \<and>
      (\<forall>g \<in> set pre. ParseFS E (Base g) (templateFuncs t) (fsys t) [g] = Inr (art g)) \<and>
      ParseFS E (Base f) (templateFuncs t) (fsys t) [f] = Inl e"
    note s = Add_failure[OF a[THEN conjunct1] a[THEN conjunct2, THEN conjunct1]
        a[THEN conjunct2, THEN conjunct2]]
    show "fst (Add E t ps) = Some (ParseFailed f e) \<and>
      store (snd (Add E t ps)) =
        store t @
        map (\<lambda>g. \<lparr>layout = [], name = g, includes' = [], template = Some (art g)\<rparr>) pre @
        [\<lparr>layout = [], name = f, includes' = [], template = None\<rparr>] \<and>
      dom (templates (snd (Add E t ps))) = dom (templates t) \<union> Base ` set pre \<and>
      templates (snd (Add E t ps)) = bind_keys (templates t) (length (store t)) pre"
      by (simp add: s bind_keys_dom)
  qed
next
  show "readFileNames E (fsys t) ps = Inr fs \<and>
    (\<forall>f \<in> set fs. ParseFS E (Base f) (templateFuncs t) (fsys t)
        ((if lay = [] then [] else [lay]) @ [f]) = Inr (art' f)) \<longrightarrow>
      fst (AddWithLayout E t lay ps) = None \<and>
      store (snd (AddWithLayout E t lay ps)) =
        store t @
        map (\<lambda>f. \<lparr>layout = lay, name = f, includes' = [], template = Some (art' f)\<rparr>) fs \<and>
      dom (templates (snd (AddWithLayout E t lay ps))) = dom (templates t) \<union> Base ` set fs \<and>
      (\<forall>k. k \<notin> Base ` set fs \<longrightarrow>
         templates (snd (AddWithLayout E t lay ps)) k = templates t k) \<and>
      (\<forall>p1 g p2. fs = p1 @ g # p2 \<and> Base g \<notin> Base ` set p2 \<longrightarrow>
         templates (snd (AddWithLayout E t lay ps)) (Base g) =
           Some (length (store t) + length p1)) \<and>
      (distinct (map Base fs) \<longrightarrow>
         (\<forall>i < length fs.
            templates (snd (AddWithLayout E t lay ps)) (Base (fs ! i)) =
              Some (length (store t) + i)))"
  proof
    assume a: "readFileNames E (fsys t) ps = Inr fs \<and>
      (\<forall>f \<in> set fs. ParseFS E (Base f) (templateFuncs t) (fsys t)
        ((if lay = [] then [] else [lay]) @ [f]) = Inr (art' f))"
    note s = AddWithLayout_success[OF a[THEN conjunct1] a[THEN conjunct2]]
    have r: "templates (snd (AddWithLayout E t lay ps)) =
        bind_keys (templates t) (length (store t)) fs"
      by (simp add: s)
    have "fst (AddWithLayout E t lay ps) = None" by (simp add: s)
    moreover have "store (snd (AddWithLayout E t lay ps)) =
        store t @
        map (\<lambda>f. \<lparr>layout = lay, name = f, includes' = [], template = Some (art' f)\<rparr>) fs"
      by (simp add: s)
    ultimately show "fst (AddWithLayout E t lay ps) = None \<and>
      store (snd (AddWithLayout E t lay ps)) =
        store t @
        map (\<lambda>f. \<lparr>layout = lay, name = f, includes' = [], template = Some (art' f)\<rparr>) fs \<and>
      dom (templates (snd (AddWithLayout E t lay ps))) = dom (templates t) \<union> Base ` set fs \<and>
      (\<forall>k. k \<notin> Base ` set fs \<longrightarrow>
         templates (snd (AddWithLayout E t lay ps)) k = templates t k) \<and>
      (\<forall>p1 g p2. fs = p1 @ g # p2 \<and> Base g \<notin> Base ` set p2 \<longrightarrow>
         templates (snd (AddWithLayout E t lay ps)) (Base g) =
           Some (length (store t) + length p1)) \<and>
      (distinct (map Base fs) \<longrightarrow>
         (\<forall>i < length fs.
            templates (snd (AddWithLayout E t lay ps)) (Base (fs ! i)) =
              Some (length (store t) + i)))"
      using bind_keys_facts[of "templates t" "length (store t)" fs]
      unfolding r by blast
  qed
next
  show "readFileNames E (fsys t) ps = Inr (pre @ f # post) \<and>
    (\<forall>g \<in> set pre. ParseFS E (Base g) (templateFuncs t) (fsys t)
        ((if lay = [] then [] else [lay]) @ [g]) = Inr (art' g)) \<and>
    ParseFS E (Base f) (templateFuncs t) (fsys t)
        ((if lay = [] then [] else [lay]) @ [f]) = Inl e \<longrightarrow>
      fst (AddWithLayout E t lay ps) = Some (ParseFailed f e) \<and>
      store (snd (AddWithLayout E t lay ps)) =
        store t @
        map (\<lambda>g. \<lparr>layout = lay, name = g, includes' = [], template = Some (art' g)\<rparr>) pre @
        [\<lparr>layout = lay, name = f, includes' = [], template = None\<rparr>] \<and>
      dom (templates (snd (AddWithLayout E t lay ps))) = dom (templates t) \<union> Base ` set pre \<and>
      templates (snd (AddWithLayout E t lay ps)) =
        bind_keys (templates t) (length (store t)) pre"
  proof
    assume a: "readFileNames E (fsys t) ps = Inr (pre @ f # post) \<and>
      (\<forall>g \<in> set pre. ParseFS E (Base g) (templateFuncs t) (fsys t)
        ((if lay = [] then [] else [lay]) @ [g]) = Inr (art' g)) \<and>
      ParseFS E (Base f) (templateFuncs t) (fsys t)
        ((if lay = [] then [] else [lay]) @ [f]) = Inl e"
    note s = AddWithLayout_failure[OF a[THEN conjunct1] a[THEN conjunct2, THEN conjunct1]
        a[THEN conjunct2, THEN conjunct2]]
    show "fst (AddWithLayout E t lay ps) = Some (ParseFailed f e) \<and>
      store (snd (AddWithLayout E t lay ps)) =
        store t @
        map (\<lambda>g. \<lparr>layout = lay, name = g, includes' = [], template = Some (art' g)\<rparr>) pre @
        [\<lparr>layout = lay, name = f, includes' = [], template = None\<rparr>] \<and>
      dom (templates (snd (AddWithLayout E t lay ps))) = dom (templates t) \<union> Base ` set pre \<and>
      templates (snd (AddWithLayout E t lay ps)) =
        bind_keys (templates t) (length (store t)) pre"
      by (simp add: s bind_keys_dom)
  qed
qed

text \<open>
  The amended C9 on the example file collection: \<open>pages/*.html\<close> matches two files
  with different base names, and each of the two registrations leaves one registered
  view per file; when \<open>pages/index.html\<close> does not parse, \<open>Add\<close> returns its parse
  error and only \<open>about.html\<close> is registered.
\<close>

theorem Add_one_view_per_file_witness:
  "store (snd (Add example_engine
      (New example_files False () :: (example_fs, unit, string \<times> string list) ViewRenderer)
      [''pages/*.html''])) =
     [\<lparr>layout = [], name = ''pages/about.html'', includes' = [],
        template = Some (''about.html'', [''pages/about.html''])\<rparr>,
      \<lparr>layout = [], name = ''pages/index.html'', includes' = [],
        template = Some (''index.html'', [''pages/index.html''])\<rparr>] \<and>
   templates (snd (Add example_engine
      (New example_files False () :: (example_fs, unit, string \<times> string list) ViewRenderer)
      [''pages/*.html''])) ''about.html'' = Some 0 \<and>
   templates (snd (Add example_engine
      (New example_files False () :: (example_fs, unit, string \<times> string list) ViewRenderer)
      [''pages/*.html''])) ''index.html'' = Some 1 \<and>
   dom (templates (snd (Add example_engine
      (New example_files False () :: (example_fs, unit, string \<times> string list) ViewRenderer)
      [''pages/*.html'']))) = {''about.html'', ''index.html''} \<and>
   store (snd (AddWithLayout example_engine
      (New example_files False () :: (example_fs, unit, string \<times> string list) ViewRenderer)
      ''layout.html'' [''pages/*.html''])) =
     [\<lparr>layout = ''layout.html'', name = ''pages/about.html'', includes' = [],
        template = Some (''about.html'', [''layout.html'', ''pages/about.html''])\<rparr>,
      \<lparr>layout = ''layout.html'', name = ''pages/index.html'', includes' = [],
        template = Some (''index.html'', [''layout.html'', ''pages/index.html''])\<rparr>] \<and>
   templates (snd (AddWithLayout example_engine
      (New example_files False () :: (example_fs, unit, string \<times> string list) ViewRenderer)
      ''layout.html'' [''pages/*.html''])) ''index.html'' = Some 1 \<and>
   fst (Add example_engine
      (New broken_files False () :: (example_fs, unit, string \<times> string list) ViewRenderer)
      [''pages/*.html'']) =
     Some (ParseFailed ''pages/index.html'' (External ''syntax error'')) \<and>
   dom (templates (snd (Add example_engine
      (New broken_files False () :: (example_fs, unit, string \<times> string list) ViewRenderer)
      [''pages/*.html'']))) = {''about.html''}"
proof -
  let ?t = "New example_files False () :: (example_fs, unit, string \<times> string list) ViewRenderer"
  let ?b = "New broken_files False () :: (example_fs, unit, string \<times> string list) ViewRenderer"
  let ?fs = "[''pages/about.html'', ''pages/index.html'']"
  have r: "readFileNames example_engine (fsys ?t) [''pages/*.html''] = Inr ?fs"
    by (simp add: New_def example_pages)
  have p1: "\<forall>f \<in> set ?fs. ParseFS example_engine (Base f) (templateFuncs ?t) (fsys ?t) [f] =
      Inr (Base f, [f])"
    by (simp add: New_def example_Base example_parse_pages)
  have p2: "\<forall>f \<in> set ?fs. ParseFS example_engine (Base f) (templateFuncs ?t) (fsys ?t)
      ((if ''layout.html'' = [] then [] else [''layout.html'']) @ [f]) =
      Inr (Base f, [''layout.html'', f])"
    by (simp add: New_def example_Base example_engine_simps example_ParseFS_def example_Glob_def
        example_files_def)
  have d: "distinct (map Base ?fs)" by (simp add: example_Base)
  have i0: "(0::nat) < length ?fs" and i1: "(1::nat) < length ?fs" by simp_all
  note ok = Add_one_view_per_file[of example_engine ?t "[''pages/*.html'']" "''layout.html''" ?fs
      "\<lambda>f. (Base f, [f])" "[]" "''x''" "[]" "External ''none''"
      "\<lambda>f. (Base f, [''layout.html'', f])"]
  note addS = ok[THEN conjunct2, THEN conjunct1, THEN mp, OF conjI[OF r p1]]
  note a1 = addS[THEN conjunct2, THEN conjunct1]
  note a4 = addS[THEN conjunct2, THEN conjunct2, THEN conjunct1]
  note addD = addS[THEN conjunct2, THEN conjunct2, THEN conjunct2, THEN conjunct2,
      THEN conjunct2, THEN mp, OF d]
  note a2 = addD[THEN spec, THEN mp, OF i0]
  note a3 = addD[THEN spec, THEN mp, OF i1]
  note layS = ok[THEN conjunct2, THEN conjunct2, THEN conjunct2, THEN conjunct1, THEN mp,
      OF conjI[OF r p2]]
  note l1 = layS[THEN conjunct2, THEN conjunct1]
  note l2 = layS[THEN conjunct2, THEN conjunct2, THEN conjunct2, THEN conjunct2,
      THEN conjunct2, THEN mp, OF d, THEN spec, THEN mp, OF i1]
  have rb: "readFileNames example_engine (fsys ?b) [''pages/*.html''] =
      Inr ([''pages/about.html''] @ ''pages/index.html'' # [])"
    by (simp add: New_def readFileNames_def example_engine_simps example_Glob_def
        example_files_def broken_files_def)
  have pb: "\<forall>g \<in> set [''pages/about.html''].
      ParseFS example_engine (Base g) (templateFuncs ?b) (fsys ?b) [g] = Inr (Base g, [g])"
    by (simp add: New_def example_Base example_engine_simps example_ParseFS_def example_Glob_def
        example_files_def broken_files_def)
  have fb: "ParseFS example_engine (Base ''pages/index.html'') (templateFuncs ?b) (fsys ?b)
      [''pages/index.html''] = Inl (External ''syntax error'')"
    by (simp add: New_def example_Base example_parse_pages)
  note bad = Add_one_view_per_file[of example_engine ?b "[''pages/*.html'']" "[]" "[]"
      "\<lambda>f. (Base f, [f])" "[''pages/about.html'']" "''pages/index.html''" "[]"
      "External ''syntax error''" "\<lambda>f. (Base f, [f])"]
  note badS = bad[THEN conjunct2, THEN conjunct2, THEN conjunct1, THEN mp,
      OF conjI[OF rb conjI[OF pb fb]]]
  note b1 = badS[THEN conjunct1]
  note b2 = badS[THEN conjunct2, THEN conjunct2, THEN conjunct1]
  from a1 a2 a3 a4 l1 l2 b1 b2 show ?thesis
    by (simp add: New_def example_Base insert_commute)
qed

subsection \<open>C10: the registry key is the base name of the page file\<close>

text \<open>
  C10: in every state a program can bring a renderer to, options applied to the live
  renderer included, the key of a registry entry is the base name of the page file of
  the view it points to. A lookup that finds a view was called with the base name of
  that view's page file, and a lookup by a registered key finds the view under that key
  (in reload mode: when the recompilation succeeds). A name that is not a key, and so
  any name with a directory component (a full matched path such as
  \<open>pages/index.html\<close>), is not found. When the files matched by one \<open>Add\<close> all
  compile, \<open>Add\<close> reports no error and the key \<open>Base f\<close> ends up pointing to the view of
  the last matched file with that base name, so an earlier file with the same base name
  in another directory is overwritten; a lookup by \<open>Base f\<close> then finds that view, and
  a lookup by the full path \<open>f\<close> finds nothing.
\<close>

theorem registry_keyed_by_base_name:
  assumes "live E t"
  shows "(\<forall>k a. templates t k = Some a \<longrightarrow>
            a < length (store t) \<and> Base (name (store t ! a)) = k) \<and>
         (\<forall>a. fst (lookupTemplate E t nm) = Inr a \<longrightarrow>
            templates t nm = Some a \<and> Base (name (store t ! a)) = nm) \<and>
         (\<forall>a. templates t nm = Some a \<and>
            (autoReload t \<longrightarrow>
               (\<exists>tp. ParseFS E (Base (name (store t ! a))) (templateFuncs t) (fsys t)
                        (source_patterns (store t ! a)) = Inr tp)) \<longrightarrow>
            fst (lookupTemplate E t nm) = Inr a) \<and>
         (templates t nm = None \<longrightarrow> lookupTemplate E t nm = (Inl (NotFound nm), t)) \<and>
         (CHR ''/'' \<in> set nm \<and> nm \<noteq> ''/'' \<longrightarrow>
            lookupTemplate E t nm = (Inl (NotFound nm), t)) \<and>
         (readFileNames E (fsys t) ps = Inr (pre @ f # post) \<and>
          (\<forall>g \<in> set (pre @ f # post).
              ParseFS E (Base g) (templateFuncs t) (fsys t) [g] = Inr (art g)) \<and>
          Base f \<notin> Base ` set post \<longrightarrow>
            fst (Add E t ps) = None \<and>
            templates (snd (Add E t ps)) (Base f) = Some (length (store t) + length pre) \<and>
            name (store (snd (Add E t ps)) ! (length (store t) + length pre)) = f \<and>
            fst (lookupTemplate E (snd (Add E t ps)) (Base f)) =
              Inr (length (store t) + length pre) \<and>
            (CHR ''/'' \<in> set f \<and> f \<noteq> ''/'' \<longrightarrow>
               fst (lookupTemplate E (snd (Add E t ps)) f) = Inl (NotFound f)))"
proof -
  from assms have ok: "keys_ok t" by (rule live_keys_ok)
  have slash: "templates u n = None"
    if "keys_ok u" and "CHR ''/'' \<in> set n \<and> n \<noteq> ''/''" for u :: "('a, 'b, 'c) ViewRenderer" and n
  proof (cases "templates u n")
    case (Some a)
    with that(1) have "Base (name (store u ! a)) = n" by (simp add: keys_ok_def)
    with that(2) Base_no_slash[of "name (store u ! a)"] show ?thesis by simp
  qed simp
  have c1: "\<forall>k a. templates t k = Some a \<longrightarrow>
            a < length (store t) \<and> Base (name (store t ! a)) = k"
    using ok by (simp add: keys_ok_def)
  have c2: "\<forall>a. fst (lookupTemplate E t nm) = Inr a \<longrightarrow>
            templates t nm = Some a \<and> Base (name (store t ! a)) = nm"
  proof (intro allI impI)
    fix a assume "fst (lookupTemplate E t nm) = Inr a"
    then have "templates t nm = Some a" by (rule lookupTemplate_found_key)
    with c1 show "templates t nm = Some a \<and> Base (name (store t ! a)) = nm" by simp
  qed
  have c3: "\<forall>a. templates t nm = Some a \<and>
            (autoReload t \<longrightarrow>
               (\<exists>tp. ParseFS E (Base (name (store t ! a))) (templateFuncs t) (fsys t)
                        (source_patterns (store t ! a)) = Inr tp)) \<longrightarrow>
            fst (lookupTemplate E t nm) = Inr a"
  proof (intro allI impI)
    fix a
    assume h: "templates t nm = Some a \<and>
            (autoReload t \<longrightarrow>
               (\<exists>tp. ParseFS E (Base (name (store t ! a))) (templateFuncs t) (fsys t)
                        (source_patterns (store t ! a)) = Inr tp))"
    show "fst (lookupTemplate E t nm) = Inr a"
      by (rule lookupTemplate_finds[OF h[THEN conjunct1] h[THEN conjunct2]])
  qed
  have c4: "templates t nm = None \<longrightarrow> lookupTemplate E t nm = (Inl (NotFound nm), t)"
    by (simp add: lookupTemplate_missing)
  have c5: "CHR ''/'' \<in> set nm \<and> nm \<noteq> ''/'' \<longrightarrow>
            lookupTemplate E t nm = (Inl (NotFound nm), t)"
    using slash[OF ok, of nm] by (simp add: lookupTemplate_missing)
  have c6: "fst (Add E t ps) = None \<and>
            templates (snd (Add E t ps)) (Base f) = Some (length (store t) + length pre) \<and>
            name (store (snd (Add E t ps)) ! (length (store t) + length pre)) = f \<and>
            fst (lookupTemplate E (snd (Add E t ps)) (Base f)) =
              Inr (length (store t) + length pre) \<and>
            (CHR ''/'' \<in> set f \<and> f \<noteq> ''/'' \<longrightarrow>
               fst (lookupTemplate E (snd (Add E t ps)) f) = Inl (NotFound f))"
    if a: "readFileNames E (fsys t) ps = Inr (pre @ f # post) \<and>
          (\<forall>g \<in> set (pre @ f # post).
              ParseFS E (Base g) (templateFuncs t) (fsys t) [g] = Inr (art g)) \<and>
          Base f \<notin> Base ` set post"
  proof -
    let ?t' = "snd (Add E t ps)"
    let ?a = "length (store t) + length pre"
    from a have r: "readFileNames E (fsys t) ps = Inr (pre @ f # post)"
      by (rule conjunct1)
    from a have p: "\<forall>g \<in> set (pre @ f # post).
              ParseFS E (Base g) (templateFuncs t) (fsys t) [g] = Inr (art g)"
      by (rule conjunct2[THEN conjunct1])
    from a have b: "Base f \<notin> Base ` set post" by simp
    note s = Add_success[OF r p]
    have e1: "fst (Add E t ps) = None" by (simp add: s)
    from bind_keys_last[OF b, of "templates t" "length (store t)" pre]
    have e2: "templates ?t' (Base f) = Some ?a" by (simp add: s)
    have e3: "store ?t' ! ?a =
        \<lparr>layout = [], name = f, includes' = [], template = Some (art f)\<rparr>"
      by (simp add: s nth_append)
    from p have pf: "ParseFS E (Base f) (templateFuncs t) (fsys t) [f] = Inr (art f)" by simp
    have fr: "fsys ?t' = fsys t" "templateFuncs ?t' = templateFuncs t" by (simp_all add: s)
    have "autoReload ?t' \<longrightarrow>
          (\<exists>tp. ParseFS E (Base (name (store ?t' ! ?a))) (templateFuncs ?t') (fsys ?t')
                   (source_patterns (store ?t' ! ?a)) = Inr tp)"
      by (simp add: e3 fr pf source_patterns_def)
    from lookupTemplate_finds[OF e2 this]
    have e4: "fst (lookupTemplate E ?t' (Base f)) = Inr ?a" .
    from assms have "live E ?t'" by (rule l_Add)
    then have ok': "keys_ok ?t'" by (rule live_keys_ok)
    have e5: "CHR ''/'' \<in> set f \<and> f \<noteq> ''/'' \<longrightarrow>
               fst (lookupTemplate E ?t' f) = Inl (NotFound f)"
      using slash[OF ok', of f] by (simp add: lookupTemplate_missing)
    from e1 e2 e3 e4 e5 show ?thesis by simp
  qed
  from c1 c2 c3 c4 c5 c6 show ?thesis by blast
qed

text \<open>
  C10 on the example file collection: \<open>*/x.html\<close> matches \<open>a/x.html\<close> and
  \<open>b/x.html\<close>. After the registration the key \<open>x.html\<close> points to the view of
  \<open>b/x.html\<close> and a lookup by \<open>x.html\<close> finds it; the full path \<open>b/x.html\<close> and the
  name \<open>y.html\<close> are not found.
\<close>

theorem registry_keyed_by_base_name_witness:
  "templates (snd (Add example_engine
      (New example_files False () :: (example_fs, unit, string \<times> string list) ViewRenderer)
      [''*/x.html''])) ''x.html'' = Some 1 \<and>
   name (store (snd (Add example_engine
      (New example_files False () :: (example_fs, unit, string \<times> string list) ViewRenderer)
      [''*/x.html''])) ! 1) = ''b/x.html'' \<and>
   fst (lookupTemplate example_engine
      (snd (Add example_engine
         (New example_files False () :: (example_fs, unit, string \<times> string list) ViewRenderer)
         [''*/x.html''])) ''x.html'') = Inr 1 \<and>
   fst (lookupTemplate example_engine
      (snd (Add example_engine
         (New example_files False () :: (example_fs, unit, string \<times> string list) ViewRenderer)
         [''*/x.html''])) ''b/x.html'') = Inl (NotFound ''b/x.html'') \<and>
   fst (lookupTemplate example_engine
      (snd (Add example_engine
         (New example_files False () :: (example_fs, unit, string \<times> string list) ViewRenderer)
         [''*/x.html''])) ''y.html'') = Inl (NotFound ''y.html'')"
proof -
  let ?t = "New example_files False () :: (example_fs, unit, string \<times> string list) ViewRenderer"
  let ?t' = "snd (Add example_engine ?t [''*/x.html''])"
  have re: "live example_engine ?t" by (rule l_New)
  then have re': "live example_engine ?t'" by (rule l_Add)
  have r: "readFileNames example_engine (fsys ?t) [''*/x.html''] =
      Inr ([''a/x.html''] @ ''b/x.html'' # [])"
    by (simp add: New_def readFileNames_def example_Glob_simps)
  have p: "\<forall>g \<in> set ([''a/x.html''] @ ''b/x.html'' # []).
      ParseFS example_engine (Base g) (templateFuncs ?t) (fsys ?t) [g] = Inr (Base g, [g])"
    by (simp add: New_def example_Base example_engine_simps example_ParseFS_def example_Glob_def
        example_files_def)
  have b: "Base ''b/x.html'' \<notin> Base ` set []" by simp
  have s: "CHR ''/'' \<in> set ''b/x.html'' \<and> ''b/x.html'' \<noteq> ''/''" by simp
  from registry_keyed_by_base_name[OF re, of _ "[''*/x.html'']" "[''a/x.html'']"
      "''b/x.html''" "[]" "\<lambda>g. (Base g, [g])"] r p b s
  have one: "templates ?t' ''x.html'' = Some 1 \<and> name (store ?t' ! 1) = ''b/x.html'' \<and>
      fst (lookupTemplate example_engine ?t' ''x.html'') = Inr 1 \<and>
      fst (lookupTemplate example_engine ?t' ''b/x.html'') = Inl (NotFound ''b/x.html'')"
    by (simp add: example_Base New_def)
  have "templates ?t' = bind_keys (templates ?t) (length (store ?t)) [''a/x.html'', ''b/x.html'']"
    using Add_success[OF r p] by simp
  then have y: "templates ?t' ''y.html'' = None"
    by (simp add: New_def example_Base)
  from registry_keyed_by_base_name[OF re', of "''y.html''"] y
  have two: "fst (lookupTemplate example_engine ?t' ''y.html'') = Inl (NotFound ''y.html'')"
    by simp
  from one two show ?thesis by simp
qed

end
